theory Spec2Isabelle
  imports Main "HOL-Library.Word"
begin

section \<open>The patch size estimator: data model\<close>

text \<open>
  The program (\<^verbatim>\<open>apk_patch_size_estimator.py\<close>) works on files named by path and
  on five module-level variables holding the resolved tool paths. A file system is a
  partial map from paths to byte strings; only regular files are modelled, and
  \<^verbatim>\<open>open(p, 'w')\<close> always succeeds (the work directory is writable).
\<close>

type_synonym byte = "8 word"
type_synonym bytes = "byte list"
type_synonym fs = "string \<rightharpoonup> bytes"

text \<open>
  The seven places where \<^verbatim>\<open>calculate_sizes\<close> starts a process, in program order
  (lines 123, 137, 148, 156, 167, 177 and 182). The world keeps a trace of the
  processes started there: the place, the argument vector and the exit status.
\<close>

datatype step = Bsdiff | Head | Tail | Bunzip2 | Cat | Gzip_patch | Gzip_new

record world =
  files :: fs
  calls :: "(step \<times> string list \<times> int) list"
  bsdiff_path :: "string option"
  gzip_path :: "string option"
  head_path :: "string option"
  tail_path :: "string option"
  bunzip2_path :: "string option"

text \<open>
  The exceptions the module can raise. \<open>CalledProcessError rc argv\<close> is what
  \<^verbatim>\<open>subprocess.check_output\<close> raises on a non-zero exit status; \<open>Exception msg\<close> is
  the module's own \<^verbatim>\<open>raise Exception(msg)\<close>; \<open>OSError p\<close> is \<^verbatim>\<open>os.stat\<close> on a
  missing path.
\<close>

datatype error =
    CalledProcessError int "string list"
  | Exception string
  | OSError string

datatype 'a outcome = Raised error world | Returned 'a world

text \<open>The dictionary returned by \<^verbatim>\<open>calculate_sizes\<close>.\<close>

record sizes =
  gzipped_new_file_size :: nat
  bsdiff_patch_size :: nat

text \<open>
  The external programs. Each is a function from what the process reads to its exit
  status and what it writes; a fixed external-tool behaviour is a fixed value of this
  record.
  \<^item> \<open>which_run name\<close>: \<^verbatim>\<open>which name\<close>, exit status and standard output.
  \<^item> \<open>bsdiff_run old new\<close>: \<^verbatim>\<open>bsdiff old new out\<close>, exit status and the bytes
    written to \<^verbatim>\<open>out\<close>.
  \<^item> \<open>head_run n f\<close>: \<^verbatim>\<open>head -c n f\<close>, exit status and standard output.
  \<^item> \<open>tail_run n f\<close>: \<^verbatim>\<open>tail -c +n f\<close>, exit status and standard output.
  \<^item> \<open>bunzip2_run f\<close>: \<^verbatim>\<open>bunzip2 -d -q f.bz2\<close>, exit status and the bytes
    written to \<^verbatim>\<open>f\<close>.
  \<^item> \<open>cat_run f g\<close>: \<^verbatim>\<open>cat f g\<close>, exit status and standard output.
  \<^item> \<open>gzip_run level name f\<close>: gzip at effort \<open>level\<close> on the file called
    \<open>name\<close>, exit status and the compressed stream.
  A file argument is \<open>None\<close> when no file is at the path. Starting a process
  always succeeds; a program started by \<^verbatim>\<open>check_output\<close> that exits non-zero is
  taken to leave the file system as it found it; on success bsdiff writes its output
  file, \<^verbatim>\<open>bunzip2\<close> replaces \<^verbatim>\<open>f.bz2\<close> by \<^verbatim>\<open>f\<close> and \<^verbatim>\<open>gzip -9 f\<close>
  replaces \<^verbatim>\<open>f\<close> by \<^verbatim>\<open>f.gz\<close>.
\<close>

record tools =
  which_run :: "string \<Rightarrow> int \<times> string"
  bsdiff_run :: "bytes option \<Rightarrow> bytes option \<Rightarrow> int \<times> bytes"
  head_run :: "nat \<Rightarrow> bytes option \<Rightarrow> int \<times> bytes"
  tail_run :: "nat \<Rightarrow> bytes option \<Rightarrow> int \<times> bytes"
  bunzip2_run :: "bytes option \<Rightarrow> int \<times> bytes"
  cat_run :: "bytes option \<Rightarrow> bytes option \<Rightarrow> int \<times> bytes"
  gzip_run :: "nat \<Rightarrow> string \<Rightarrow> bytes option \<Rightarrow> int \<times> bytes"

section \<open>Python primitives\<close>

definition os_path_exists :: "string \<Rightarrow> world \<Rightarrow> bool" where
  "os_path_exists p w = (files w p \<noteq> None)"

definition os_remove :: "string \<Rightarrow> world \<Rightarrow> world" where
  "os_remove p w = w\<lparr>files := (files w)(p := None)\<rparr>"

text \<open>\<^verbatim>\<open>if os.path.exists(p): os.remove(p)\<close>\<close>

definition remove_if_exists :: "string \<Rightarrow> world \<Rightarrow> world" where
  "remove_if_exists p w = (if os_path_exists p w then os_remove p w else w)"

text \<open>
  \<^verbatim>\<open>open(p, 'w')\<close> creates the file or truncates it; what a process then writes to
  the handle as its standard output becomes the contents.
\<close>

definition open_w :: "string \<Rightarrow> world \<Rightarrow> world" where
  "open_w p w = w\<lparr>files := (files w)(p \<mapsto> [])\<rparr>"

definition write_stdout :: "string \<Rightarrow> bytes \<Rightarrow> world \<Rightarrow> world" where
  "write_stdout p out w = w\<lparr>files := (files w)(p \<mapsto> out)\<rparr>"

definition log_call :: "step \<Rightarrow> string list \<Rightarrow> int \<Rightarrow> world \<Rightarrow> world" where
  "log_call s argv rc w = w\<lparr>calls := calls w @ [(s, argv, rc)]\<rparr>"

text \<open>\<^verbatim>\<open>os.stat(p).st_size\<close>\<close>

definition os_stat_size :: "string \<Rightarrow> world \<Rightarrow> error + nat" where
  "os_stat_size p w = (case files w p of None \<Rightarrow> Inl (OSError p) | Some b \<Rightarrow> Inr (length b))"

text \<open>\<^verbatim>\<open>'%s' % n\<close> for an integer: its decimal digits, with a minus sign.\<close>

fun str_nat :: "nat \<Rightarrow> string" where
  "str_nat n = (if n < 10 then [char_of (48 + n)] else str_nat (n div 10) @ [char_of (48 + n mod 10)])"

declare str_nat.simps [simp del]

definition str_int :: "int \<Rightarrow> string" where
  "str_int i = (if i < 0 then CHR ''-'' # str_nat (nat (- i)) else str_nat (nat i))"

text \<open>\<^verbatim>\<open>s.strip()\<close>: leading and trailing white space removed.\<close>

definition is_space :: "char \<Rightarrow> bool" where
  "is_space c = (c \<in> set [CHR '' '', CHR 0x09, CHR 0x0A, CHR 0x0B, CHR 0x0C, CHR 0x0D])"

definition strip :: "string \<Rightarrow> string" where
  "strip s = rev (dropWhile is_space (rev (dropWhile is_space s)))"

text \<open>\<^verbatim>\<open>not p\<close> for a variable that is \<^verbatim>\<open>None\<close> or a string.\<close>

definition falsy :: "string option \<Rightarrow> bool" where
  "falsy g = (case g of None \<Rightarrow> True | Some p \<Rightarrow> p = [])"

text \<open>
  The string a tool path variable contributes to an argument vector. Every vector is
  built after \<^verbatim>\<open>find_bins_or_die\<close> has returned, when all five variables are set.
\<close>

definition arg :: "string option \<Rightarrow> string" where
  "arg g = (case g of None \<Rightarrow> ''None'' | Some p \<Rightarrow> p)"

section \<open>Locating the tools\<close>

text \<open>
  \<^verbatim>\<open>find_binary\<close> (lines 70-77): the stripped output of \<^verbatim>\<open>which\<close>, or an
  \<^verbatim>\<open>Exception\<close> when \<^verbatim>\<open>which\<close> exits non-zero.
\<close>

definition find_binary :: "tools \<Rightarrow> string \<Rightarrow> error + string" where
  "find_binary T binary_name =
     (if fst (which_run T binary_name) \<noteq> 0
      then Inl (Exception (''No '' @ [CHR 0x22] @ binary_name @ [CHR 0x22]
                  @ '' on PATH, please install or fix PATH.''))
      else Inr (strip (snd (which_run T binary_name))))"

text \<open>
  \<^verbatim>\<open>find_bins_or_die\<close> (lines 46-67): each variable that is not yet set is
  resolved, in the order bsdiff, gzip, head, tail, bunzip2; the first failure raises
  and keeps the variables resolved so far.
\<close>

definition find_bins_or_die :: "tools \<Rightarrow> world \<Rightarrow> unit outcome" where
  "find_bins_or_die T w =
     (case (if falsy (bsdiff_path w) then find_binary T ''bsdiff'' else Inr (arg (bsdiff_path w))) of
        Inl e \<Rightarrow> Raised e w
      | Inr p1 \<Rightarrow> let w1 = w\<lparr>bsdiff_path := Some p1\<rparr> in
     (case (if falsy (gzip_path w1) then find_binary T ''gzip'' else Inr (arg (gzip_path w1))) of
        Inl e \<Rightarrow> Raised e w1
      | Inr p2 \<Rightarrow> let w2 = w1\<lparr>gzip_path := Some p2\<rparr> in
     (case (if falsy (head_path w2) then find_binary T ''head'' else Inr (arg (head_path w2))) of
        Inl e \<Rightarrow> Raised e w2
      | Inr p3 \<Rightarrow> let w3 = w2\<lparr>head_path := Some p3\<rparr> in
     (case (if falsy (tail_path w3) then find_binary T ''tail'' else Inr (arg (tail_path w3))) of
        Inl e \<Rightarrow> Raised e w3
      | Inr p4 \<Rightarrow> let w4 = w3\<lparr>tail_path := Some p4\<rparr> in
     (case (if falsy (bunzip2_path w4) then find_binary T ''bunzip2'' else Inr (arg (bunzip2_path w4))) of
        Inl e \<Rightarrow> Raised e w4
      | Inr p5 \<Rightarrow> Returned () (w4\<lparr>bunzip2_path := Some p5\<rparr>))))))"

section \<open>The work-area paths\<close>

definition raw_bsdiff_path :: "string \<Rightarrow> string" where
  "raw_bsdiff_path temp_path = temp_path @ ''.raw_bsdiff''"

definition bzipped_bsdiff_path :: "string \<Rightarrow> string" where
  "bzipped_bsdiff_path temp_path = raw_bsdiff_path temp_path @ ''.bz2''"

definition gzipped_bsdiff_path :: "string \<Rightarrow> string" where
  "gzipped_bsdiff_path temp_path = raw_bsdiff_path temp_path @ ''.gz''"

definition bsdiff_header_path :: "string \<Rightarrow> string" where
  "bsdiff_header_path temp_path = temp_path @ ''.raw_bsdiff_header''"

text \<open>Lines 159-162: the caller's path when one was given, a work-area path otherwise.\<close>

definition rebuilt_bsdiff_path :: "string option \<Rightarrow> string \<Rightarrow> string" where
  "rebuilt_bsdiff_path save_patch_path temp_path =
     (if \<not> falsy save_patch_path then arg save_patch_path
      else raw_bsdiff_path temp_path @ ''.rebuilt'')"

section \<open>The pipeline\<close>

text \<open>
  \<^verbatim>\<open>calculate_sizes\<close> (lines 91-197) is a straight line of seven blocks, each
  introduced by a comment of the source. A block takes the world and either raises,
  leaving the world as it was at the \<^verbatim>\<open>raise\<close>, or returns.

  Lines 116-133, ``Create the bsdiff of the two APKs'': the stale files at
  \<^verbatim>\<open>temp_path + '.gz'\<close> and \<^verbatim>\<open>temp_path\<close> are removed, the tools are located,
  bsdiff runs on the two inputs and writes \<^verbatim>\<open>temp_path\<close>, and the stale files at
  the four derived paths are removed.
\<close>

definition create_bsdiff :: "tools \<Rightarrow> string \<Rightarrow> string \<Rightarrow> string \<Rightarrow> world \<Rightarrow> unit outcome" where
  "create_bsdiff T old_file new_file temp_path w =
     (let w1 = remove_if_exists (temp_path @ ''.gz'') w;
          w2 = remove_if_exists temp_path w1
      in case find_bins_or_die T w2 of
           Raised e w3 \<Rightarrow> Raised e w3
         | Returned _ w3 \<Rightarrow>
             let argv = [arg (bsdiff_path w3), old_file, new_file, temp_path];
                 r = bsdiff_run T (files w3 old_file) (files w3 new_file);
                 w4 = log_call Bsdiff argv (fst r) w3
             in if fst r \<noteq> 0 then Raised (CalledProcessError (fst r) argv) w4
                else let w5 = write_stdout temp_path (snd r) w4;
                         w6 = remove_if_exists (raw_bsdiff_path temp_path) w5;
                         w7 = remove_if_exists (bzipped_bsdiff_path temp_path) w6;
                         w8 = remove_if_exists (gzipped_bsdiff_path temp_path) w7;
                         w9 = remove_if_exists (bsdiff_header_path temp_path) w8
                     in Returned () w9)"

text \<open>
  Lines 135-144, ``Strip the first 32 bytes the bsdiff file'': the header file is
  opened for writing and \<^verbatim>\<open>head -c 32\<close> runs with that handle as its standard
  output. The file \<^verbatim>\<open>head\<close> is given to read (line 138) is
  \<^verbatim>\<open>bsdiff_header_path\<close>, the file just opened.
\<close>

definition strip_header :: "tools \<Rightarrow> string \<Rightarrow> world \<Rightarrow> unit outcome" where
  "strip_header T temp_path w =
     (let w1 = open_w (bsdiff_header_path temp_path) w;
          argv = [arg (head_path w1), ''-c'', ''32'', bsdiff_header_path temp_path];
          r = head_run T 32 (files w1 (bsdiff_header_path temp_path));
          w2 = log_call Head argv (fst r) (write_stdout (bsdiff_header_path temp_path) (snd r) w1)
      in if fst r \<noteq> 0
         then Raised (Exception (''Problem at the bsdiff step, returned code: '' @ str_int (fst r))) w2
         else Returned () w2)"

text \<open>
  Lines 146-156, ``Take the remainder of the file to gain an uncompressed copy'':
  \<^verbatim>\<open>tail -c +33\<close> of \<^verbatim>\<open>temp_path\<close> goes to the \<^verbatim>\<open>.bz2\<close> file, which
  \<^verbatim>\<open>bunzip2\<close> then replaces by its decompression at \<^verbatim>\<open>raw_bsdiff_path\<close>.
\<close>

definition take_remainder :: "tools \<Rightarrow> string \<Rightarrow> world \<Rightarrow> unit outcome" where
  "take_remainder T temp_path w =
     (let w1 = open_w (bzipped_bsdiff_path temp_path) w;
          argv = [arg (tail_path w1), ''-c'', ''+33'', temp_path];
          r = tail_run T 33 (files w1 temp_path);
          w2 = log_call Tail argv (fst r) (write_stdout (bzipped_bsdiff_path temp_path) (snd r) w1)
      in if fst r \<noteq> 0
         then Raised (Exception (''Problem at the tail step, returned code: '' @ str_int (fst r))) w2
         else
           let argv2 = [arg (bunzip2_path w2), ''-d'', ''-q'', bzipped_bsdiff_path temp_path];
               u = bunzip2_run T (files w2 (bzipped_bsdiff_path temp_path));
               w3 = log_call Bunzip2 argv2 (fst u) w2
           in if fst u \<noteq> 0 then Raised (CalledProcessError (fst u) argv2) w3
              else Returned ()
                     (os_remove (bzipped_bsdiff_path temp_path)
                        (write_stdout (raw_bsdiff_path temp_path) (snd u) w3)))"

text \<open>
  Lines 158-174, ``Prepend the 32 bytes of bsdiff header back onto the uncompressed
  file'': \<^verbatim>\<open>cat\<close> of the header file and the decompressed payload goes to the
  rebuilt path, after any file there or at the rebuilt path plus \<^verbatim>\<open>.gz\<close> has been
  removed.
\<close>

definition prepend_header :: "tools \<Rightarrow> string option \<Rightarrow> string \<Rightarrow> world \<Rightarrow> unit outcome" where
  "prepend_header T save_patch_path temp_path w =
     (let rebuilt = rebuilt_bsdiff_path save_patch_path temp_path;
          w1 = remove_if_exists rebuilt w;
          w2 = remove_if_exists (rebuilt @ ''.gz'') w1;
          w3 = open_w rebuilt w2;
          argv = [''cat'', bsdiff_header_path temp_path, raw_bsdiff_path temp_path];
          r = cat_run T (files w3 (bsdiff_header_path temp_path)) (files w3 (raw_bsdiff_path temp_path));
          w4 = log_call Cat argv (fst r) (write_stdout rebuilt (snd r) w3)
      in if fst r \<noteq> 0
         then Raised (Exception (''Problem at the cat step, returned code: '' @ str_int (fst r))) w4
         else Returned () w4)"

text \<open>
  Lines 176-178, ``gzip the patch and get its size'': \<^verbatim>\<open>gzip -9\<close> replaces the
  rebuilt file by its compression at the same path plus \<^verbatim>\<open>.gz\<close>, whose size is
  the patch size.
\<close>

definition gzip_patch :: "tools \<Rightarrow> string option \<Rightarrow> string \<Rightarrow> world \<Rightarrow> nat outcome" where
  "gzip_patch T save_patch_path temp_path w =
     (let rebuilt = rebuilt_bsdiff_path save_patch_path temp_path;
          argv = [arg (gzip_path w), ''-9'', rebuilt];
          r = gzip_run T 9 rebuilt (files w rebuilt);
          w1 = log_call Gzip_patch argv (fst r) w
      in if fst r \<noteq> 0 then Raised (CalledProcessError (fst r) argv) w1
         else let w2 = os_remove rebuilt (write_stdout (rebuilt @ ''.gz'') (snd r) w1)
              in case os_stat_size (rebuilt @ ''.gz'') w2 of
                   Inl e \<Rightarrow> Raised e w2
                 | Inr n \<Rightarrow> Returned n w2)"

text \<open>
  Lines 180-190, ``gzip new APK and get its size'': \<^verbatim>\<open>gzip --keep -c -9\<close> of the
  new file goes to \<^verbatim>\<open>temp_path\<close>, whose size is the new file's compressed size.
\<close>

definition gzip_new_apk :: "tools \<Rightarrow> string \<Rightarrow> string \<Rightarrow> world \<Rightarrow> nat outcome" where
  "gzip_new_apk T new_file temp_path w =
     (let w1 = open_w temp_path w;
          argv = [arg (gzip_path w1), ''--keep'', ''-c'', ''-9'', new_file];
          r = gzip_run T 9 new_file (files w1 new_file);
          w2 = log_call Gzip_new argv (fst r) (write_stdout temp_path (snd r) w1)
      in if fst r \<noteq> 0
         then Raised (Exception (''Problem gzipping the new APK, returned code: '' @ str_int (fst r))) w2
         else case os_stat_size temp_path w2 of
                Inl e \<Rightarrow> Raised e w2
              | Inr n \<Rightarrow> Returned n w2)"

text \<open>Lines 192-194, ``Clean up''.\<close>

definition clean_up :: "string \<Rightarrow> world \<Rightarrow> world" where
  "clean_up temp_path w =
     remove_if_exists (gzipped_bsdiff_path temp_path) (remove_if_exists temp_path w)"

text \<open>
  The first four blocks end at line 174, where the rebuilt file, the header followed
  by the decompressed payload, has been written and closed.
\<close>

definition transcode ::
    "tools \<Rightarrow> string \<Rightarrow> string \<Rightarrow> string option \<Rightarrow> string \<Rightarrow> world \<Rightarrow> unit outcome" where
  "transcode T old_file new_file save_patch_path temp_path w =
     (case create_bsdiff T old_file new_file temp_path w of
        Raised e w1 \<Rightarrow> Raised e w1
      | Returned _ w1 \<Rightarrow>
     (case strip_header T temp_path w1 of
        Raised e w2 \<Rightarrow> Raised e w2
      | Returned _ w2 \<Rightarrow>
     (case take_remainder T temp_path w2 of
        Raised e w3 \<Rightarrow> Raised e w3
      | Returned _ w3 \<Rightarrow> prepend_header T save_patch_path temp_path w3)))"

definition calculate_sizes ::
    "tools \<Rightarrow> string \<Rightarrow> string \<Rightarrow> string option \<Rightarrow> string \<Rightarrow> world \<Rightarrow> sizes outcome" where
  "calculate_sizes T old_file new_file save_patch_path temp_path w =
     (case transcode T old_file new_file save_patch_path temp_path w of
        Raised e w4 \<Rightarrow> Raised e w4
      | Returned _ w4 \<Rightarrow>
     (case gzip_patch T save_patch_path temp_path w4 of
        Raised e w5 \<Rightarrow> Raised e w5
      | Returned patch_size w5 \<Rightarrow>
     (case gzip_new_apk T new_file temp_path w5 of
        Raised e w6 \<Rightarrow> Raised e w6
      | Returned new_size w6 \<Rightarrow>
          Returned \<lparr>gzipped_new_file_size = new_size, bsdiff_patch_size = patch_size\<rparr>
                   (clean_up temp_path w6))))"

text \<open>What a call leaves behind: its result or exception, and the world.\<close>

fun result_of :: "'a outcome \<Rightarrow> error + 'a" where
  "result_of (Raised e w) = Inl e"
| "result_of (Returned x w) = Inr x"

fun world_of :: "'a outcome \<Rightarrow> world" where
  "world_of (Raised e w) = w"
| "world_of (Returned x w) = w"

section \<open>A tool set and a world to run the pipeline on\<close>

text \<open>
  Tools that behave as the real ones do on files that exist, with codecs small
  enough to run by hand: \<^verbatim>\<open>bsdiff\<close> writes a 32-byte header and the two files,
  one after the other, ``compressed'' by reversal, \<^verbatim>\<open>bunzip2\<close> reverses again, \<^verbatim>\<open>gzip\<close> puts the
  effort level in front of the data. A missing file makes a tool exit with status 1.
\<close>

definition demo_header :: bytes where
  "demo_header = replicate 32 0x42"

definition demo_tools :: tools where
  "demo_tools = \<lparr>
     which_run = (\<lambda>name. (0, ''/usr/bin/'' @ name @ [CHR 0x0A])),
     bsdiff_run = (\<lambda>old new. case (old, new) of
                      (Some a, Some b) \<Rightarrow> (0, demo_header @ rev (a @ b)) | _ \<Rightarrow> (1, [])),
     head_run = (\<lambda>n f. case f of Some b \<Rightarrow> (0, take n b) | None \<Rightarrow> (1, [])),
     tail_run = (\<lambda>n f. case f of Some b \<Rightarrow> (0, drop (n - 1) b) | None \<Rightarrow> (1, [])),
     bunzip2_run = (\<lambda>f. case f of Some b \<Rightarrow> (0, rev b) | None \<Rightarrow> (1, [])),
     cat_run = (\<lambda>f g. case (f, g) of (Some a, Some b) \<Rightarrow> (0, a @ b) | _ \<Rightarrow> (1, [])),
     gzip_run = (\<lambda>level name f. case f of Some b \<Rightarrow> (0, of_nat level # b) | None \<Rightarrow> (1, []))
   \<rparr>"

definition demo_world :: world where
  "demo_world = \<lparr>
     files = [''/sdcard/old.apk'' \<mapsto> [1, 2, 3], ''/sdcard/new.apk'' \<mapsto> [1, 2, 3, 4, 5]],
     calls = [],
     bsdiff_path = None, gzip_path = None, head_path = None, tail_path = None,
     bunzip2_path = None
   \<rparr>"

section \<open>Vocabulary of the properties\<close>

text \<open>
  The exception each of the seven steps raises when its process exits with status
  \<open>rc\<close>: \<^verbatim>\<open>check_output\<close> raises \<^verbatim>\<open>CalledProcessError\<close> with the status and the
  argument vector (lines 123, 156, 177), the other four raise the \<^verbatim>\<open>Exception\<close> of
  lines 142, 153, 172 and 186.
\<close>

definition step_error :: "step \<Rightarrow> string list \<Rightarrow> int \<Rightarrow> error" where
  "step_error s argv rc =
     (case s of
        Bsdiff \<Rightarrow> CalledProcessError rc argv
      | Head \<Rightarrow> Exception (''Problem at the bsdiff step, returned code: '' @ str_int rc)
      | Tail \<Rightarrow> Exception (''Problem at the tail step, returned code: '' @ str_int rc)
      | Bunzip2 \<Rightarrow> CalledProcessError rc argv
      | Cat \<Rightarrow> Exception (''Problem at the cat step, returned code: '' @ str_int rc)
      | Gzip_patch \<Rightarrow> CalledProcessError rc argv
      | Gzip_new \<Rightarrow> Exception (''Problem gzipping the new APK, returned code: '' @ str_int rc))"

text \<open>The processes a call has started: what it appended to the trace.\<close>

definition new_calls :: "world \<Rightarrow> 'a outcome \<Rightarrow> (step \<times> string list \<times> int) list" where
  "new_calls w out = drop (length (calls w)) (calls (world_of out))"

text \<open>
  A run stops at its first failing process: only the last process started may have a
  non-zero status, and a non-zero status makes the run raise the exception of its step.
\<close>

definition aborts_at_failure :: "world \<Rightarrow> 'a outcome \<Rightarrow> bool" where
  "aborts_at_failure w out \<longleftrightarrow>
     (\<exists>cs. calls (world_of out) = calls w @ cs
        \<and> (\<forall>c\<in>set cs. snd (snd c) \<noteq> 0 \<longrightarrow>
              result_of out = Inl (step_error (fst c) (fst (snd c)) (snd (snd c))))
        \<and> (\<forall>c\<in>set (butlast cs). snd (snd c) = 0))"

text \<open>The five module-level variables.\<close>

definition bins :: "world \<Rightarrow> string option list" where
  "bins w = [bsdiff_path w, gzip_path w, head_path w, tail_path w, bunzip2_path w]"

text \<open>The later world has the trace of the earlier one followed by processes other than bsdiff.\<close>

definition appends_after_bsdiff :: "world \<Rightarrow> world \<Rightarrow> bool" where
  "appends_after_bsdiff w w' \<longleftrightarrow> (\<exists>cs. calls w' = calls w @ cs \<and> (\<forall>c\<in>set cs. fst c \<noteq> Bsdiff))"

text \<open>The same tools with a \<^verbatim>\<open>tail\<close> that exits with status 2.\<close>

definition demo_tools_tail_fails :: tools where
  "demo_tools_tail_fails = demo_tools\<lparr>tail_run := (\<lambda>n f. (2, []))\<rparr>"

text \<open>The same tools with a \<^verbatim>\<open>head\<close> that exits with status 3.\<close>

definition demo_tools_head_fails :: tools where
  "demo_tools_head_fails = demo_tools\<lparr>head_run := (\<lambda>n f. (3, []))\<rparr>"

text \<open>
  The paths \<^verbatim>\<open>calculate_sizes\<close> removes or writes: \<^verbatim>\<open>temp_path\<close>, the paths derived
  from it, and the rebuilt path with and without \<^verbatim>\<open>.gz\<close>.
\<close>

definition work_paths :: "string option \<Rightarrow> string \<Rightarrow> string list" where
  "work_paths save_patch_path temp_path =
     [temp_path, temp_path @ ''.gz'', raw_bsdiff_path temp_path, bzipped_bsdiff_path temp_path,
      gzipped_bsdiff_path temp_path, bsdiff_header_path temp_path,
      rebuilt_bsdiff_path save_patch_path temp_path,
      rebuilt_bsdiff_path save_patch_path temp_path @ ''.gz'']"

text \<open>The same world with a file already at \<^verbatim>\<open>/tmp/patch.tmp\<close>.\<close>

definition demo_world_stale :: world where
  "demo_world_stale = demo_world\<lparr>files := (files demo_world)(''/tmp/patch.tmp'' \<mapsto> [7, 7, 7])\<rparr>"

text \<open>
  The demo world after an earlier run has left its decompressed payload behind.
\<close>

definition demo_world_leftover :: world where
  "demo_world_leftover = demo_world\<lparr>files :=
     (files demo_world)(''/tmp/patch.tmp.raw_bsdiff'' \<mapsto> [1, 2, 3, 4, 5])\<rparr>"

text \<open>
  Two worlds agree on a set of paths: the same tool paths, and the same file or no file
  at each path of the set.
\<close>

definition agree :: "string set \<Rightarrow> world \<Rightarrow> world \<Rightarrow> bool" where
  "agree S w v \<longleftrightarrow> bins w = bins v \<and> (\<forall>p\<in>S. files w p = files v p)"

section \<open>Lemmas about the primitives and the blocks\<close>

lemma remove_if_exists_eq: "remove_if_exists p w = w\<lparr>files := (files w)(p := None)\<rparr>"
proof (cases "files w p")
  case None
  then have "(files w)(p := None) = files w" by (simp add: fun_upd_idem)
  with None show ?thesis by (simp add: remove_if_exists_def os_path_exists_def)
next
  case (Some b)
  then show ?thesis by (simp add: remove_if_exists_def os_path_exists_def os_remove_def)
qed

lemmas prim_simps = remove_if_exists_eq os_remove_def open_w_def write_stdout_def log_call_def

lemma find_bins_files [simp]: "files (world_of (find_bins_or_die T w)) = files w"
  by (simp add: find_bins_or_die_def Let_def split: sum.splits)

lemma find_bins_calls [simp]: "calls (world_of (find_bins_or_die T w)) = calls w"
  by (simp add: find_bins_or_die_def Let_def split: sum.splits)

lemma find_bins_ReturnedD:
  "find_bins_or_die T w = Returned u w' \<Longrightarrow> files w' = files w \<and> calls w' = calls w"
  by (metis find_bins_files find_bins_calls world_of.simps(2))

lemma find_bins_RaisedD:
  "find_bins_or_die T w = Raised e w' \<Longrightarrow> files w' = files w \<and> calls w' = calls w"
  by (metis find_bins_files find_bins_calls world_of.simps(1))

lemma aborts_create_bsdiff: "aborts_at_failure w (create_bsdiff T old_file new_file temp_path w)"
  unfolding aborts_at_failure_def
  by (auto simp: create_bsdiff_def Let_def prim_simps step_error_def
      split: outcome.splits dest!: find_bins_ReturnedD find_bins_RaisedD)

lemma aborts_strip_header: "aborts_at_failure w (strip_header T temp_path w)"
  unfolding aborts_at_failure_def
  by (auto simp: strip_header_def Let_def prim_simps step_error_def)

lemma aborts_take_remainder: "aborts_at_failure w (take_remainder T temp_path w)"
  unfolding aborts_at_failure_def
  by (auto simp: take_remainder_def Let_def prim_simps step_error_def)

lemma aborts_prepend_header: "aborts_at_failure w (prepend_header T save_patch_path temp_path w)"
  unfolding aborts_at_failure_def
  by (auto simp: prepend_header_def Let_def prim_simps step_error_def)

lemma aborts_gzip_patch: "aborts_at_failure w (gzip_patch T save_patch_path temp_path w)"
  unfolding aborts_at_failure_def
  by (auto simp: gzip_patch_def Let_def prim_simps step_error_def os_stat_size_def split: option.splits)

lemma aborts_gzip_new_apk: "aborts_at_failure w (gzip_new_apk T new_file temp_path w)"
  unfolding aborts_at_failure_def
  by (auto simp: gzip_new_apk_def Let_def prim_simps step_error_def os_stat_size_def split: option.splits)

lemma aborts_then:
  assumes 1: "aborts_at_failure w (Returned x w1 :: 'a outcome)"
    and 2: "aborts_at_failure w1 (out :: 'b outcome)"
  shows "aborts_at_failure w out"
proof -
  from 1 obtain cs1 where c1: "calls w1 = calls w @ cs1" and z1: "\<forall>c\<in>set cs1. snd (snd c) = 0"
    by (auto simp: aborts_at_failure_def)
  from 2 obtain cs2 where c2: "calls (world_of out) = calls w1 @ cs2"
    and f2: "\<forall>c\<in>set cs2. snd (snd c) \<noteq> 0 \<longrightarrow>
              result_of out = Inl (step_error (fst c) (fst (snd c)) (snd (snd c)))"
    and b2: "\<forall>c\<in>set (butlast cs2). snd (snd c) = 0"
    by (auto simp: aborts_at_failure_def)
  have "calls (world_of out) = calls w @ (cs1 @ cs2)" using c1 c2 by simp
  moreover have "\<forall>c\<in>set (cs1 @ cs2). snd (snd c) \<noteq> 0 \<longrightarrow>
              result_of out = Inl (step_error (fst c) (fst (snd c)) (snd (snd c)))"
    using z1 f2 by auto
  moreover have "\<forall>c\<in>set (butlast (cs1 @ cs2)). snd (snd c) = 0"
    using z1 b2 by (auto simp: butlast_append split: if_splits dest: in_set_butlastD)
  ultimately show ?thesis unfolding aborts_at_failure_def by blast
qed

lemma aborts_Raised: "aborts_at_failure w (Raised e w1 :: 'a outcome) \<Longrightarrow> aborts_at_failure w (Raised e w1 :: 'b outcome)"
  by (simp add: aborts_at_failure_def)

lemma aborts_Returned:
  "aborts_at_failure w (Returned x w1 :: 'a outcome) \<Longrightarrow> calls w2 = calls w1
     \<Longrightarrow> aborts_at_failure w (Returned y w2 :: 'b outcome)"
  by (simp add: aborts_at_failure_def)

lemma aborts_transcode:
  "aborts_at_failure w (transcode T old_file new_file save_patch_path temp_path w)"
proof (cases "create_bsdiff T old_file new_file temp_path w")
  case (Raised e w1)
  with aborts_create_bsdiff [of w T old_file new_file temp_path] show ?thesis
    by (simp add: transcode_def)
next
  case r1: (Returned u1 w1)
  have a1: "aborts_at_failure w (Returned u1 w1 :: unit outcome)"
    using aborts_create_bsdiff [of w T old_file new_file temp_path] r1 by simp
  show ?thesis
  proof (cases "strip_header T temp_path w1")
    case (Raised e w2)
    with aborts_then [OF a1 aborts_strip_header [of w1 T temp_path]] r1 show ?thesis
      by (simp add: transcode_def)
  next
    case r2: (Returned u2 w2)
    have a2: "aborts_at_failure w (Returned u2 w2 :: unit outcome)"
      using aborts_then [OF a1 aborts_strip_header [of w1 T temp_path]] r2 by simp
    show ?thesis
    proof (cases "take_remainder T temp_path w2")
      case (Raised e w3)
      with aborts_then [OF a2 aborts_take_remainder [of w2 T temp_path]] r1 r2 show ?thesis
        by (simp add: transcode_def)
    next
      case r3: (Returned u3 w3)
      have a3: "aborts_at_failure w (Returned u3 w3 :: unit outcome)"
        using aborts_then [OF a2 aborts_take_remainder [of w2 T temp_path]] r3 by simp
      show ?thesis
        using aborts_then [OF a3 aborts_prepend_header [of w3 T save_patch_path temp_path]] r1 r2 r3
        by (simp add: transcode_def)
    qed
  qed
qed

lemma calls_clean_up [simp]: "calls (clean_up temp_path w) = calls w"
  by (simp add: clean_up_def prim_simps)

lemma aborts_calculate_sizes:
  "aborts_at_failure w (calculate_sizes T old_file new_file save_patch_path temp_path w)"
proof (cases "transcode T old_file new_file save_patch_path temp_path w")
  case (Raised e w4)
  with aborts_transcode [of w T old_file new_file save_patch_path temp_path]
  have "aborts_at_failure w (Raised e w4 :: unit outcome)" by simp
  then have "aborts_at_failure w (Raised e w4 :: sizes outcome)" by (rule aborts_Raised)
  with Raised show ?thesis by (simp add: calculate_sizes_def)
next
  case r4: (Returned u4 w4)
  have a4: "aborts_at_failure w (Returned u4 w4 :: unit outcome)"
    using aborts_transcode [of w T old_file new_file save_patch_path temp_path] r4 by simp
  show ?thesis
  proof (cases "gzip_patch T save_patch_path temp_path w4")
    case (Raised e w5)
    with aborts_then [OF a4 aborts_gzip_patch [of w4 T save_patch_path temp_path]]
    have "aborts_at_failure w (Raised e w5 :: nat outcome)" by simp
    then have "aborts_at_failure w (Raised e w5 :: sizes outcome)" by (rule aborts_Raised)
    with r4 Raised show ?thesis by (simp add: calculate_sizes_def)
  next
    case r5: (Returned n5 w5)
    have a5: "aborts_at_failure w (Returned n5 w5 :: nat outcome)"
      using aborts_then [OF a4 aborts_gzip_patch [of w4 T save_patch_path temp_path]] r5 by simp
    show ?thesis
    proof (cases "gzip_new_apk T new_file temp_path w5")
      case (Raised e w6)
      with aborts_then [OF a5 aborts_gzip_new_apk [of w5 T new_file temp_path]]
      have "aborts_at_failure w (Raised e w6 :: nat outcome)" by simp
      then have "aborts_at_failure w (Raised e w6 :: sizes outcome)" by (rule aborts_Raised)
      with r4 r5 Raised show ?thesis by (simp add: calculate_sizes_def)
    next
      case r6: (Returned n6 w6)
      have a6: "aborts_at_failure w (Returned n6 w6 :: nat outcome)"
        using aborts_then [OF a5 aborts_gzip_new_apk [of w5 T new_file temp_path]] r6 by simp
      show ?thesis
        using aborts_Returned [OF a6, of "clean_up temp_path w6"] r4 r5 r6
        by (simp add: calculate_sizes_def)
    qed
  qed
qed

lemma in_set_not_butlast: "x \<in> set xs \<Longrightarrow> x \<notin> set (butlast xs) \<Longrightarrow> x = last xs"
  by (cases xs rule: rev_cases) auto

lemma str_nat_nonempty: "str_nat n \<noteq> []"
  by (subst str_nat.simps) simp

lemma str_nat_no_minus: "c \<in> set (str_nat n) \<Longrightarrow> c \<noteq> CHR ''-''"
proof (induction n rule: str_nat.induct)
  case (1 n)
  show ?case
  proof (cases "n < 10")
    case True
    with "1.prems" have c: "c = char_of (48 + n)" by (subst (asm) str_nat.simps) simp
    show ?thesis
    proof
      assume "c = CHR ''-''"
      with c have "of_char (char_of (48 + n)) = (of_char CHR ''-'' :: nat)" by simp
      with True show False by simp
    qed
  next
    case False
    with "1.prems" have "c \<in> set (str_nat (n div 10)) \<or> c = char_of (48 + n mod 10)"
      by (subst (asm) str_nat.simps) auto
    then show ?thesis
    proof
      assume "c \<in> set (str_nat (n div 10))"
      with "1.IH" False show ?thesis by simp
    next
      assume c: "c = char_of (48 + n mod 10)"
      show ?thesis
      proof
        assume "c = CHR ''-''"
        with c have "of_char (char_of (48 + n mod 10)) = (of_char CHR ''-'' :: nat)" by simp
        then show False by simp
      qed
    qed
  qed
qed

lemma digit_char_inj: "a < 10 \<Longrightarrow> b < 10 \<Longrightarrow> char_of (48 + a :: nat) = char_of (48 + b :: nat) \<Longrightarrow> a = b"
proof -
  assume a: "a < 10" and b: "b < 10" and e: "char_of (48 + a) = char_of (48 + b)"
  from e have "(of_char (char_of (48 + a)) :: nat) = of_char (char_of (48 + b))" by simp
  with a b show "a = b" by simp
qed

lemma str_nat_inj: "str_nat n = str_nat m \<Longrightarrow> n = m"
proof (induction n arbitrary: m rule: str_nat.induct)
  case (1 n)
  show ?case
  proof (cases "n < 10")
    case n: True
    show ?thesis
    proof (cases "m < 10")
      case True
      with n "1.prems" have "char_of (48 + n) = char_of (48 + m)"
        by (subst (asm) str_nat.simps, subst (asm) (2) str_nat.simps) simp
      with n True show ?thesis by (rule digit_char_inj)
    next
      case False
      with n "1.prems" have "[char_of (48 + n)] = str_nat (m div 10) @ [char_of (48 + m mod 10)]"
        by (subst (asm) str_nat.simps, subst (asm) (2) str_nat.simps) simp
      then have "str_nat (m div 10) = []" by simp
      with str_nat_nonempty show ?thesis by blast
    qed
  next
    case n: False
    show ?thesis
    proof (cases "m < 10")
      case True
      with n "1.prems" have "str_nat (n div 10) @ [char_of (48 + n mod 10)] = [char_of (48 + m)]"
        by (subst (asm) str_nat.simps, subst (asm) (2) str_nat.simps) simp
      then have "str_nat (n div 10) = []" by simp
      with str_nat_nonempty show ?thesis by blast
    next
      case False
      with n "1.prems" have
        "str_nat (n div 10) @ [char_of (48 + n mod 10)] = str_nat (m div 10) @ [char_of (48 + m mod 10)]"
        by (subst (asm) str_nat.simps, subst (asm) (2) str_nat.simps) simp
      then have e1: "str_nat (n div 10) = str_nat (m div 10)"
        and e2: "char_of (48 + n mod 10) = char_of (48 + m mod 10)" by simp_all
      from "1.IH" [OF n e1] have d: "n div 10 = m div 10" .
      have "n mod 10 = m mod 10" by (rule digit_char_inj [OF _ _ e2]) simp_all
      with d show ?thesis by (metis div_mult_mod_eq)
    qed
  qed
qed

lemma str_int_inj: "str_int a = str_int b \<Longrightarrow> a = b"
proof -
  assume e: "str_int a = str_int b"
  have hd_pos: "\<And>n. hd (str_nat n) \<noteq> CHR ''-''"
    using str_nat_no_minus str_nat_nonempty by (metis hd_in_set)
  show "a = b"
  proof (cases "a < 0")
    case a: True
    show ?thesis
    proof (cases "b < 0")
      case True
      with a e have "str_nat (nat (- a)) = str_nat (nat (- b))" by (simp add: str_int_def)
      then have "nat (- a) = nat (- b)" by (rule str_nat_inj)
      with a True show ?thesis by simp
    next
      case False
      with a e have "CHR ''-'' # str_nat (nat (- a)) = str_nat (nat b)" by (simp add: str_int_def)
      then have "hd (str_nat (nat b)) = CHR ''-''" by (metis list.sel(1))
      with hd_pos show ?thesis by blast
    qed
  next
    case a: False
    show ?thesis
    proof (cases "b < 0")
      case True
      with a e have "str_nat (nat a) = CHR ''-'' # str_nat (nat (- b))" by (simp add: str_int_def)
      then have "hd (str_nat (nat a)) = CHR ''-''" by (metis list.sel(1))
      with hd_pos show ?thesis by blast
    next
      case False
      with a e have "str_nat (nat a) = str_nat (nat b)" by (simp add: str_int_def)
      then have "nat a = nat b" by (rule str_nat_inj)
      with a False show ?thesis by simp
    qed
  qed
qed

lemma step_error_inj:
  "step_error s' argv' rc' = step_error s argv rc \<Longrightarrow> rc' = rc \<and> (s' = s \<or> argv' = argv)"
  by (cases s; cases s') (auto simp: step_error_def dest: str_int_inj)

lemma calculate_sizes_cases [case_names create strip remainder prepend gzip_patch gzip_new finished]:
  fixes T old_file new_file save_patch_path temp_path w
  defines "out \<equiv> calculate_sizes T old_file new_file save_patch_path temp_path w"
  obtains
    (create) e w1 where "create_bsdiff T old_file new_file temp_path w = Raised e w1" "out = Raised e w1"
  | (strip) w1 e w2 where "create_bsdiff T old_file new_file temp_path w = Returned () w1"
      "strip_header T temp_path w1 = Raised e w2" "out = Raised e w2"
  | (remainder) w1 w2 e w3 where "create_bsdiff T old_file new_file temp_path w = Returned () w1"
      "strip_header T temp_path w1 = Returned () w2"
      "take_remainder T temp_path w2 = Raised e w3" "out = Raised e w3"
  | (prepend) w1 w2 w3 e w4 where "create_bsdiff T old_file new_file temp_path w = Returned () w1"
      "strip_header T temp_path w1 = Returned () w2"
      "take_remainder T temp_path w2 = Returned () w3"
      "prepend_header T save_patch_path temp_path w3 = Raised e w4" "out = Raised e w4"
  | (gzip_patch) w1 w2 w3 w4 e w5 where "create_bsdiff T old_file new_file temp_path w = Returned () w1"
      "strip_header T temp_path w1 = Returned () w2"
      "take_remainder T temp_path w2 = Returned () w3"
      "prepend_header T save_patch_path temp_path w3 = Returned () w4"
      "gzip_patch T save_patch_path temp_path w4 = Raised e w5" "out = Raised e w5"
  | (gzip_new) w1 w2 w3 w4 n5 w5 e w6 where "create_bsdiff T old_file new_file temp_path w = Returned () w1"
      "strip_header T temp_path w1 = Returned () w2"
      "take_remainder T temp_path w2 = Returned () w3"
      "prepend_header T save_patch_path temp_path w3 = Returned () w4"
      "gzip_patch T save_patch_path temp_path w4 = Returned n5 w5"
      "gzip_new_apk T new_file temp_path w5 = Raised e w6" "out = Raised e w6"
  | (finished) w1 w2 w3 w4 n5 w5 n6 w6 where "create_bsdiff T old_file new_file temp_path w = Returned () w1"
      "strip_header T temp_path w1 = Returned () w2"
      "take_remainder T temp_path w2 = Returned () w3"
      "prepend_header T save_patch_path temp_path w3 = Returned () w4"
      "gzip_patch T save_patch_path temp_path w4 = Returned n5 w5"
      "gzip_new_apk T new_file temp_path w5 = Returned n6 w6"
      "out = Returned \<lparr>gzipped_new_file_size = n6, bsdiff_patch_size = n5\<rparr> (clean_up temp_path w6)"
proof (cases "create_bsdiff T old_file new_file temp_path w")
  case (Raised e w1)
  then show ?thesis using create by (simp add: out_def calculate_sizes_def transcode_def)
next
  case r1: (Returned u1 w1)
  show ?thesis
  proof (cases "strip_header T temp_path w1")
    case (Raised e w2)
    with r1 show ?thesis using strip by (simp add: out_def calculate_sizes_def transcode_def)
  next
    case r2: (Returned u2 w2)
    show ?thesis
    proof (cases "take_remainder T temp_path w2")
      case (Raised e w3)
      with r1 r2 show ?thesis using remainder
        by (simp add: out_def calculate_sizes_def transcode_def)
    next
      case r3: (Returned u3 w3)
      show ?thesis
      proof (cases "prepend_header T save_patch_path temp_path w3")
        case (Raised e w4)
        with r1 r2 r3 show ?thesis using prepend
          by (simp add: out_def calculate_sizes_def transcode_def)
      next
        case r4: (Returned u4 w4)
        show ?thesis
        proof (cases "gzip_patch T save_patch_path temp_path w4")
          case (Raised e w5)
          with r1 r2 r3 r4 show ?thesis using gzip_patch
            by (simp add: out_def calculate_sizes_def transcode_def)
        next
          case r5: (Returned n5 w5)
          show ?thesis
          proof (cases "gzip_new_apk T new_file temp_path w5")
            case (Raised e w6)
            with r1 r2 r3 r4 r5 show ?thesis using gzip_new
              by (simp add: out_def calculate_sizes_def transcode_def)
          next
            case (Returned n6 w6)
            with r1 r2 r3 r4 r5 show ?thesis using finished
              by (simp add: out_def calculate_sizes_def transcode_def)
          qed
        qed
      qed
    qed
  qed
qed

lemma bins_eqD:
  "bins w = bins v \<Longrightarrow> bsdiff_path w = bsdiff_path v \<and> gzip_path w = gzip_path v
     \<and> head_path w = head_path v \<and> tail_path w = tail_path v \<and> bunzip2_path w = bunzip2_path v"
  by (simp add: bins_def)

lemma bins_update [simp]:
  "bins (w\<lparr>files := f\<rparr>) = bins w" "bins (w\<lparr>calls := c\<rparr>) = bins w"
  by (simp_all add: bins_def)

lemma create_bsdiff_ReturnedD:
  assumes "create_bsdiff T old_file new_file temp_path w = Returned u w1"
  shows "fst (bsdiff_run T (((files w)(temp_path @ ''.gz'' := None, temp_path := None)) old_file)
                           (((files w)(temp_path @ ''.gz'' := None, temp_path := None)) new_file)) = 0"
    and "files w1 = (files w)(temp_path @ ''.gz'' := None,
           temp_path \<mapsto> snd (bsdiff_run T (((files w)(temp_path @ ''.gz'' := None, temp_path := None)) old_file)
                           (((files w)(temp_path @ ''.gz'' := None, temp_path := None)) new_file)),
           raw_bsdiff_path temp_path := None, bzipped_bsdiff_path temp_path := None,
           gzipped_bsdiff_path temp_path := None, bsdiff_header_path temp_path := None)"
    and "calls w1 = calls w @ [(Bsdiff, [arg (bsdiff_path w1), old_file, new_file, temp_path], 0)]"
proof -
  let ?w2 = "w\<lparr>files := (files w)(temp_path @ ''.gz'' := None, temp_path := None)\<rparr>"
  from assms obtain w3 where fb: "find_bins_or_die T ?w2 = Returned () w3"
    by (auto simp: create_bsdiff_def Let_def prim_simps split: outcome.splits)
  then have f3: "files w3 = (files w)(temp_path @ ''.gz'' := None, temp_path := None)"
    and c3: "calls w3 = calls w"
    by (auto dest: find_bins_ReturnedD)
  let ?r = "bsdiff_run T (files w3 old_file) (files w3 new_file)"
  from assms fb have z: "fst ?r = 0"
    by (simp add: create_bsdiff_def Let_def prim_simps split: if_splits)
  with assms fb have w1: "w1 = w3\<lparr>calls := calls w3 @ [(Bsdiff, [arg (bsdiff_path w3), old_file, new_file, temp_path], 0)],
        files := (files w3)(temp_path \<mapsto> snd ?r, raw_bsdiff_path temp_path := None,
           bzipped_bsdiff_path temp_path := None, gzipped_bsdiff_path temp_path := None,
           bsdiff_header_path temp_path := None)\<rparr>"
    by (simp add: create_bsdiff_def Let_def prim_simps)
  from z f3 show "fst (bsdiff_run T (((files w)(temp_path @ ''.gz'' := None, temp_path := None)) old_file)
                           (((files w)(temp_path @ ''.gz'' := None, temp_path := None)) new_file)) = 0"
    by simp
  from w1 f3 show "files w1 = (files w)(temp_path @ ''.gz'' := None,
           temp_path \<mapsto> snd (bsdiff_run T (((files w)(temp_path @ ''.gz'' := None, temp_path := None)) old_file)
                           (((files w)(temp_path @ ''.gz'' := None, temp_path := None)) new_file)),
           raw_bsdiff_path temp_path := None, bzipped_bsdiff_path temp_path := None,
           gzipped_bsdiff_path temp_path := None, bsdiff_header_path temp_path := None)"
    by simp
  from w1 c3 show "calls w1 = calls w @ [(Bsdiff, [arg (bsdiff_path w1), old_file, new_file, temp_path], 0)]"
    by simp
qed

lemma create_bsdiff_RaisedD:
  assumes "create_bsdiff T old_file new_file temp_path w = Raised e w1"
  shows "files w1 = (files w)(temp_path @ ''.gz'' := None, temp_path := None)"
    and "calls w1 = calls w \<or>
         (\<exists>rc. rc \<noteq> 0 \<and> e = CalledProcessError rc [arg (bsdiff_path w1), old_file, new_file, temp_path]
            \<and> calls w1 = calls w @ [(Bsdiff, [arg (bsdiff_path w1), old_file, new_file, temp_path], rc)])"
proof -
  let ?w2 = "w\<lparr>files := (files w)(temp_path @ ''.gz'' := None, temp_path := None)\<rparr>"
  show "files w1 = (files w)(temp_path @ ''.gz'' := None, temp_path := None)"
  proof (cases "find_bins_or_die T ?w2")
    case (Raised e' w3)
    with assms show ?thesis
      by (auto simp: create_bsdiff_def Let_def prim_simps dest: find_bins_RaisedD)
  next
    case (Returned u w3)
    with assms show ?thesis
      by (auto simp: create_bsdiff_def Let_def prim_simps split: if_splits dest: find_bins_ReturnedD)
  qed
  show "calls w1 = calls w \<or>
         (\<exists>rc. rc \<noteq> 0 \<and> e = CalledProcessError rc [arg (bsdiff_path w1), old_file, new_file, temp_path]
            \<and> calls w1 = calls w @ [(Bsdiff, [arg (bsdiff_path w1), old_file, new_file, temp_path], rc)])"
  proof (cases "find_bins_or_die T ?w2")
    case (Raised e' w3)
    with assms show ?thesis
      by (auto simp: create_bsdiff_def Let_def prim_simps dest: find_bins_RaisedD)
  next
    case (Returned u w3)
    with assms show ?thesis
      by (auto simp: create_bsdiff_def Let_def prim_simps split: if_splits dest: find_bins_ReturnedD)
  qed
qed

lemma strip_header_ReturnedD:
  assumes "strip_header T temp_path w = Returned u w1"
  shows "fst (head_run T 32 (Some [])) = 0"
    and "files w1 = (files w)(bsdiff_header_path temp_path \<mapsto> snd (head_run T 32 (Some [])))"
    and "calls w1 = calls w @ [(Head, [arg (head_path w), ''-c'', ''32'', bsdiff_header_path temp_path], 0)]"
    and "bins w1 = bins w"
  using assms by (auto simp: strip_header_def Let_def prim_simps split: if_splits)

lemma take_remainder_ReturnedD:
  assumes "take_remainder T temp_path w = Returned u w1"
  shows "fst (tail_run T 33 (files w temp_path)) = 0"
    and "fst (bunzip2_run T (Some (snd (tail_run T 33 (files w temp_path))))) = 0"
    and "files w1 = (files w)(raw_bsdiff_path temp_path \<mapsto>
            snd (bunzip2_run T (Some (snd (tail_run T 33 (files w temp_path))))),
          bzipped_bsdiff_path temp_path := None)"
    and "calls w1 = calls w @ [(Tail, [arg (tail_path w), ''-c'', ''+33'', temp_path], 0),
           (Bunzip2, [arg (bunzip2_path w), ''-d'', ''-q'', bzipped_bsdiff_path temp_path], 0)]"
    and "bins w1 = bins w"
  using assms
  by (auto simp: take_remainder_def Let_def prim_simps bzipped_bsdiff_path_def raw_bsdiff_path_def
      split: if_splits)

lemma prepend_header_ReturnedD:
  assumes "prepend_header T save_patch_path temp_path w = Returned u w1"
  defines "rebuilt \<equiv> rebuilt_bsdiff_path save_patch_path temp_path"
  defines "f3 \<equiv> (files w)(rebuilt := None, rebuilt @ ''.gz'' := None, rebuilt \<mapsto> [])"
  shows "fst (cat_run T (f3 (bsdiff_header_path temp_path)) (f3 (raw_bsdiff_path temp_path))) = 0"
    and "files w1 = f3(rebuilt \<mapsto>
            snd (cat_run T (f3 (bsdiff_header_path temp_path)) (f3 (raw_bsdiff_path temp_path))))"
    and "calls w1 = calls w @ [(Cat, [''cat'', bsdiff_header_path temp_path, raw_bsdiff_path temp_path], 0)]"
    and "bins w1 = bins w"
  using assms(1) unfolding rebuilt_def f3_def
  by (auto simp: prepend_header_def Let_def prim_simps split: if_splits)

lemma gzip_patch_ReturnedD:
  assumes "gzip_patch T save_patch_path temp_path w = Returned n w1"
  defines "rebuilt \<equiv> rebuilt_bsdiff_path save_patch_path temp_path"
  shows "fst (gzip_run T 9 rebuilt (files w rebuilt)) = 0"
    and "n = length (snd (gzip_run T 9 rebuilt (files w rebuilt)))"
    and "files w1 = (files w)(rebuilt @ ''.gz'' \<mapsto> snd (gzip_run T 9 rebuilt (files w rebuilt)),
           rebuilt := None)"
    and "calls w1 = calls w @ [(Gzip_patch, [arg (gzip_path w), ''-9'', rebuilt], 0)]"
    and "bins w1 = bins w"
  using assms(1) unfolding rebuilt_def
  by (auto simp: gzip_patch_def Let_def prim_simps os_stat_size_def split: if_splits)

lemma gzip_new_apk_ReturnedD:
  assumes "gzip_new_apk T new_file temp_path w = Returned n w1"
  defines "src \<equiv> ((files w)(temp_path \<mapsto> [])) new_file"
  shows "fst (gzip_run T 9 new_file src) = 0"
    and "n = length (snd (gzip_run T 9 new_file src))"
    and "files w1 = (files w)(temp_path \<mapsto> snd (gzip_run T 9 new_file src))"
    and "calls w1 = calls w @ [(Gzip_new, [arg (gzip_path w), ''--keep'', ''-c'', ''-9'', new_file], 0)]"
    and "bins w1 = bins w"
  using assms(1) unfolding src_def
  by (auto simp: gzip_new_apk_def Let_def prim_simps os_stat_size_def split: if_splits)

lemma files_clean_up [simp]:
  "files (clean_up temp_path w) = (files w)(temp_path := None, gzipped_bsdiff_path temp_path := None)"
  by (simp add: clean_up_def prim_simps)

lemma bins_clean_up [simp]: "bins (clean_up temp_path w) = bins w"
  by (simp add: clean_up_def prim_simps)

lemma appends_refl: "calls w' = calls w \<Longrightarrow> appends_after_bsdiff w w'"
  by (simp add: appends_after_bsdiff_def)

lemma appends_trans:
  assumes "appends_after_bsdiff w w1" and "appends_after_bsdiff w1 w2"
  shows "appends_after_bsdiff w w2"
proof -
  from assms obtain cs1 cs2 where "calls w1 = calls w @ cs1" "\<forall>c\<in>set cs1. fst c \<noteq> Bsdiff"
    "calls w2 = calls w1 @ cs2" "\<forall>c\<in>set cs2. fst c \<noteq> Bsdiff"
    unfolding appends_after_bsdiff_def by blast
  then have "calls w2 = calls w @ (cs1 @ cs2) \<and> (\<forall>c\<in>set (cs1 @ cs2). fst c \<noteq> Bsdiff)" by auto
  then show ?thesis unfolding appends_after_bsdiff_def by blast
qed

lemma appendsI: "calls w' = calls w @ cs \<Longrightarrow> \<forall>c\<in>set cs. fst c \<noteq> Bsdiff \<Longrightarrow> appends_after_bsdiff w w'"
  unfolding appends_after_bsdiff_def by blast

lemma appends_strip_header: "appends_after_bsdiff w (world_of (strip_header T temp_path w))"
  by (rule appendsI [where cs = "[(Head, [arg (head_path w), ''-c'', ''32'', bsdiff_header_path temp_path],
        fst (head_run T 32 (Some [])))]"])
     (simp_all add: strip_header_def Let_def prim_simps)

lemma appends_take_remainder: "appends_after_bsdiff w (world_of (take_remainder T temp_path w))"
  unfolding appends_after_bsdiff_def
  by (auto simp: take_remainder_def Let_def prim_simps)

lemma appends_prepend_header:
  "appends_after_bsdiff w (world_of (prepend_header T save_patch_path temp_path w))"
  unfolding appends_after_bsdiff_def
  by (auto simp: prepend_header_def Let_def prim_simps)

lemma appends_gzip_patch:
  "appends_after_bsdiff w (world_of (gzip_patch T save_patch_path temp_path w))"
  unfolding appends_after_bsdiff_def
  by (auto simp: gzip_patch_def Let_def prim_simps os_stat_size_def split: option.splits)

lemma appends_gzip_new_apk:
  "appends_after_bsdiff w (world_of (gzip_new_apk T new_file temp_path w))"
  unfolding appends_after_bsdiff_def
  by (auto simp: gzip_new_apk_def Let_def prim_simps os_stat_size_def split: option.splits)

lemma appends_after_create:
  assumes r1: "create_bsdiff T old_file new_file temp_path w = Returned u w1"
  shows "appends_after_bsdiff w1
           (world_of (calculate_sizes T old_file new_file save_patch_path temp_path w))"
proof (cases T old_file new_file save_patch_path temp_path w rule: calculate_sizes_cases)
  case (create e w1')
  with r1 show ?thesis by simp
next
  case (strip w1' e w2)
  with r1 appends_strip_header [of w1 T temp_path] show ?thesis by simp
next
  case (remainder w1' w2 e w3)
  with r1 have e: "w1' = w1" by simp
  from remainder e appends_strip_header [of w1 T temp_path] have a2: "appends_after_bsdiff w1 w2" by simp
  from remainder appends_take_remainder [of w2 T temp_path] have a3: "appends_after_bsdiff w2 w3" by simp
  from appends_trans [OF a2 a3] remainder show ?thesis by simp
next
  case (prepend w1' w2 w3 e w4)
  with r1 have e: "w1' = w1" by simp
  from prepend e appends_strip_header [of w1 T temp_path] have a2: "appends_after_bsdiff w1 w2" by simp
  from prepend appends_take_remainder [of w2 T temp_path] have a3: "appends_after_bsdiff w2 w3" by simp
  from prepend appends_prepend_header [of w3 T save_patch_path temp_path]
  have a4: "appends_after_bsdiff w3 w4" by simp
  from appends_trans [OF appends_trans [OF a2 a3] a4] prepend show ?thesis by simp
next
  case (gzip_patch w1' w2 w3 w4 e w5)
  with r1 have e: "w1' = w1" by simp
  from gzip_patch e appends_strip_header [of w1 T temp_path] have a2: "appends_after_bsdiff w1 w2" by simp
  from gzip_patch appends_take_remainder [of w2 T temp_path] have a3: "appends_after_bsdiff w2 w3" by simp
  from gzip_patch appends_prepend_header [of w3 T save_patch_path temp_path]
  have a4: "appends_after_bsdiff w3 w4" by simp
  from gzip_patch appends_gzip_patch [of w4 T save_patch_path temp_path]
  have a5: "appends_after_bsdiff w4 w5" by simp
  from appends_trans [OF appends_trans [OF appends_trans [OF a2 a3] a4] a5] gzip_patch
  show ?thesis by simp
next
  case (gzip_new w1' w2 w3 w4 n5 w5 e w6)
  with r1 have e: "w1' = w1" by simp
  from gzip_new e appends_strip_header [of w1 T temp_path] have a2: "appends_after_bsdiff w1 w2" by simp
  from gzip_new appends_take_remainder [of w2 T temp_path] have a3: "appends_after_bsdiff w2 w3" by simp
  from gzip_new appends_prepend_header [of w3 T save_patch_path temp_path]
  have a4: "appends_after_bsdiff w3 w4" by simp
  from gzip_new appends_gzip_patch [of w4 T save_patch_path temp_path]
  have a5: "appends_after_bsdiff w4 w5" by simp
  from gzip_new appends_gzip_new_apk [of w5 T new_file temp_path]
  have a6: "appends_after_bsdiff w5 w6" by simp
  from appends_trans [OF appends_trans [OF appends_trans [OF appends_trans [OF a2 a3] a4] a5] a6]
    gzip_new
  show ?thesis by simp
next
  case (finished w1' w2 w3 w4 n5 w5 n6 w6)
  with r1 have e: "w1' = w1" by simp
  from finished e appends_strip_header [of w1 T temp_path] have a2: "appends_after_bsdiff w1 w2" by simp
  from finished appends_take_remainder [of w2 T temp_path] have a3: "appends_after_bsdiff w2 w3" by simp
  from finished appends_prepend_header [of w3 T save_patch_path temp_path]
  have a4: "appends_after_bsdiff w3 w4" by simp
  from finished appends_gzip_patch [of w4 T save_patch_path temp_path]
  have a5: "appends_after_bsdiff w4 w5" by simp
  from finished appends_gzip_new_apk [of w5 T new_file temp_path]
  have a6: "appends_after_bsdiff w5 w6" by simp
  have a7: "appends_after_bsdiff w6 (clean_up temp_path w6)" by (rule appends_refl) simp
  from appends_trans [OF appends_trans [OF appends_trans [OF appends_trans [OF appends_trans [OF a2 a3] a4] a5] a6] a7]
    finished
  show ?thesis by simp
qed

lemma frame_create_bsdiff:
  assumes "p \<noteq> temp_path @ ''.gz''" "p \<noteq> temp_path" "p \<noteq> raw_bsdiff_path temp_path"
    "p \<noteq> bzipped_bsdiff_path temp_path" "p \<noteq> gzipped_bsdiff_path temp_path"
    "p \<noteq> bsdiff_header_path temp_path"
  shows "files (world_of (create_bsdiff T old_file new_file temp_path w)) p = files w p"
proof (cases "create_bsdiff T old_file new_file temp_path w")
  case (Raised e w1)
  from create_bsdiff_RaisedD(1) [OF Raised] Raised assms show ?thesis by simp
next
  case (Returned u w1)
  from create_bsdiff_ReturnedD(2) [OF Returned] Returned assms show ?thesis by simp
qed

lemma frame_strip_header:
  "p \<noteq> bsdiff_header_path temp_path
     \<Longrightarrow> files (world_of (strip_header T temp_path w)) p = files w p"
  by (simp add: strip_header_def Let_def prim_simps)

lemma frame_take_remainder:
  "p \<noteq> bzipped_bsdiff_path temp_path \<Longrightarrow> p \<noteq> raw_bsdiff_path temp_path
     \<Longrightarrow> files (world_of (take_remainder T temp_path w)) p = files w p"
  by (simp add: take_remainder_def Let_def prim_simps)

lemma frame_prepend_header:
  "p \<noteq> rebuilt_bsdiff_path save_patch_path temp_path
     \<Longrightarrow> p \<noteq> rebuilt_bsdiff_path save_patch_path temp_path @ ''.gz''
     \<Longrightarrow> files (world_of (prepend_header T save_patch_path temp_path w)) p = files w p"
  by (simp add: prepend_header_def Let_def prim_simps)

lemma frame_gzip_patch:
  "p \<noteq> rebuilt_bsdiff_path save_patch_path temp_path
     \<Longrightarrow> p \<noteq> rebuilt_bsdiff_path save_patch_path temp_path @ ''.gz''
     \<Longrightarrow> files (world_of (gzip_patch T save_patch_path temp_path w)) p = files w p"
  by (simp add: gzip_patch_def Let_def prim_simps os_stat_size_def split: option.splits)

lemma frame_gzip_new_apk:
  "p \<noteq> temp_path \<Longrightarrow> files (world_of (gzip_new_apk T new_file temp_path w)) p = files w p"
  by (simp add: gzip_new_apk_def Let_def prim_simps os_stat_size_def split: option.splits)

lemma frame_calculate_sizes:
  assumes "p \<notin> set (work_paths save_patch_path temp_path)"
  shows "files (world_of (calculate_sizes T old_file new_file save_patch_path temp_path w)) p = files w p"
proof -
  from assms have d: "p \<noteq> temp_path @ ''.gz''" "p \<noteq> temp_path" "p \<noteq> raw_bsdiff_path temp_path"
    "p \<noteq> bzipped_bsdiff_path temp_path" "p \<noteq> gzipped_bsdiff_path temp_path"
    "p \<noteq> bsdiff_header_path temp_path" "p \<noteq> rebuilt_bsdiff_path save_patch_path temp_path"
    "p \<noteq> rebuilt_bsdiff_path save_patch_path temp_path @ ''.gz''"
    by (simp_all add: work_paths_def)
  note f1 = frame_create_bsdiff [OF d(1-6), of T old_file new_file w]
  note f2 = frame_strip_header [OF d(6), of T]
  note f3 = frame_take_remainder [OF d(4) d(3), of T]
  note f4 = frame_prepend_header [OF d(7,8), of T]
  note f5 = frame_gzip_patch [OF d(7,8), of T]
  note f6 = frame_gzip_new_apk [OF d(2), of T new_file]
  show ?thesis
  proof (cases T old_file new_file save_patch_path temp_path w rule: calculate_sizes_cases)
    case (create e w1)
    with f1 show ?thesis by simp
  next
    case (strip w1 e w2)
    with f1 f2 [of w1] show ?thesis by simp
  next
    case (remainder w1 w2 e w3)
    with f1 f2 [of w1] f3 [of w2] show ?thesis by simp
  next
    case (prepend w1 w2 w3 e w4)
    with f1 f2 [of w1] f3 [of w2] f4 [of w3] show ?thesis by simp
  next
    case (gzip_patch w1 w2 w3 w4 e w5)
    with f1 f2 [of w1] f3 [of w2] f4 [of w3] f5 [of w4] show ?thesis by simp
  next
    case (gzip_new w1 w2 w3 w4 n5 w5 e w6)
    with f1 f2 [of w1] f3 [of w2] f4 [of w3] f5 [of w4] f6 [of w5] show ?thesis by simp
  next
    case (finished w1 w2 w3 w4 n5 w5 n6 w6)
    with f1 f2 [of w1] f3 [of w2] f4 [of w3] f5 [of w4] f6 [of w5] d show ?thesis by simp
  qed
qed

lemma finished_transcode:
  "create_bsdiff T old_file new_file temp_path w = Returned () w1
   \<Longrightarrow> strip_header T temp_path w1 = Returned () w2
   \<Longrightarrow> take_remainder T temp_path w2 = Returned () w3
   \<Longrightarrow> prepend_header T save_patch_path temp_path w3 = Returned () w4
   \<Longrightarrow> transcode T old_file new_file save_patch_path temp_path w = Returned () w4"
  by (simp add: transcode_def)

lemma success_trace:
  assumes "result_of (calculate_sizes T old_file new_file save_patch_path temp_path w) = Inr r"
  defines "w' \<equiv> world_of (calculate_sizes T old_file new_file save_patch_path temp_path w)"
  shows "new_calls w (calculate_sizes T old_file new_file save_patch_path temp_path w) =
     [(Bsdiff, [arg (bsdiff_path w'), old_file, new_file, temp_path], 0),
      (Head, [arg (head_path w'), ''-c'', ''32'', bsdiff_header_path temp_path], 0),
      (Tail, [arg (tail_path w'), ''-c'', ''+33'', temp_path], 0),
      (Bunzip2, [arg (bunzip2_path w'), ''-d'', ''-q'', bzipped_bsdiff_path temp_path], 0),
      (Cat, [''cat'', bsdiff_header_path temp_path, raw_bsdiff_path temp_path], 0),
      (Gzip_patch, [arg (gzip_path w'), ''-9'', rebuilt_bsdiff_path save_patch_path temp_path], 0),
      (Gzip_new, [arg (gzip_path w'), ''--keep'', ''-c'', ''-9'', new_file], 0)]"
proof (cases T old_file new_file save_patch_path temp_path w rule: calculate_sizes_cases)
  case (finished w1 w2 w3 w4 n5 w5 n6 w6)
  note c1 = create_bsdiff_ReturnedD(3) [OF finished(1)]
  note d2 = strip_header_ReturnedD(3,4) [OF finished(2)]
  note d3 = take_remainder_ReturnedD(4,5) [OF finished(3)]
  note d4 = prepend_header_ReturnedD(3,4) [OF finished(4)]
  note d5 = gzip_patch_ReturnedD(4,5) [OF finished(5)]
  note d6 = gzip_new_apk_ReturnedD(4,5) [OF finished(6)]
  have b: "bins w' = bins w1"
    using d2(2) d3(2) d4(2) d5(2) d6(2) finished(7) by (simp add: w'_def)
  note e = bins_eqD [OF b] bins_eqD [OF d2(2)] bins_eqD [OF d3(2)] bins_eqD [OF d4(2)]
    bins_eqD [OF d5(2)]
  have "calls w' = calls w6" using finished(7) by (simp add: w'_def)
  then show ?thesis
    unfolding new_calls_def w'_def [symmetric]
    by (simp add: c1 d2(1) d3(1) d4(1) d5(1) d6(1) e)
qed (use assms in simp_all)

lemma path_facts [simp]:
  "temp_path \<noteq> raw_bsdiff_path temp_path" "temp_path \<noteq> bzipped_bsdiff_path temp_path"
  "temp_path \<noteq> gzipped_bsdiff_path temp_path" "temp_path \<noteq> bsdiff_header_path temp_path"
  "bzipped_bsdiff_path temp_path \<noteq> temp_path"
  "bzipped_bsdiff_path temp_path \<noteq> gzipped_bsdiff_path temp_path"
  "bzipped_bsdiff_path temp_path \<noteq> raw_bsdiff_path temp_path"
  "bzipped_bsdiff_path temp_path \<noteq> bsdiff_header_path temp_path"
  "raw_bsdiff_path temp_path \<noteq> bsdiff_header_path temp_path"
  "raw_bsdiff_path temp_path \<noteq> gzipped_bsdiff_path temp_path"
  "p \<noteq> p @ ''.gz''"
  by (simp_all add: raw_bsdiff_path_def bzipped_bsdiff_path_def gzipped_bsdiff_path_def
      bsdiff_header_path_def)

lemma gz_not_bz2: "p @ ''.gz'' \<noteq> bzipped_bsdiff_path temp_path"
proof
  assume "p @ ''.gz'' = bzipped_bsdiff_path temp_path"
  then have "last (p @ ''.gz'') = last (temp_path @ ''.raw_bsdiff.bz2'')"
    by (simp add: bzipped_bsdiff_path_def raw_bsdiff_path_def)
  then show False by simp
qed

lemma gzip_new_apk_writes_temp:
  "files (world_of (gzip_new_apk T new_file temp_path w)) temp_path \<noteq> None"
  by (simp add: gzip_new_apk_def Let_def prim_simps os_stat_size_def split: option.splits)

lemma temp_after_create:
  "create_bsdiff T old_file new_file temp_path w = Returned u w1 \<Longrightarrow> files w1 temp_path \<noteq> None"
  by (drule create_bsdiff_ReturnedD(2)) (simp add: path_facts [symmetric])

section \<open>Two runs side by side\<close>

lemma find_bins_cong:
  assumes "bins v = bins w"
  shows "result_of (find_bins_or_die T v) = result_of (find_bins_or_die T w)
       \<and> bins (world_of (find_bins_or_die T v)) = bins (world_of (find_bins_or_die T w))"
proof -
  from bins_eqD [OF assms] have e: "bsdiff_path v = bsdiff_path w" "gzip_path v = gzip_path w"
    "head_path v = head_path w" "tail_path v = tail_path w" "bunzip2_path v = bunzip2_path w"
    by simp_all
  show ?thesis
    by (simp add: find_bins_or_die_def Let_def e bins_def split: sum.splits)
qed

lemma resolve_idem:
  "(if falsy g then find_binary T n else Inr (arg g)) = Inr p
   \<Longrightarrow> (if falsy (Some p) then find_binary T n else Inr (arg (Some p))) = Inr p"
  by (auto simp: falsy_def arg_def split: if_splits option.splits)

lemma find_bins_idem:
  assumes "find_bins_or_die T w = Returned u w3"
  shows "result_of (find_bins_or_die T w3) = Inr ()
       \<and> bins (world_of (find_bins_or_die T w3)) = bins w3"
proof -
  from assms obtain p1 p2 p3 p4 p5 where
    r1: "(if falsy (bsdiff_path w) then find_binary T ''bsdiff'' else Inr (arg (bsdiff_path w))) = Inr p1"
    and r2: "(if falsy (gzip_path w) then find_binary T ''gzip'' else Inr (arg (gzip_path w))) = Inr p2"
    and r3: "(if falsy (head_path w) then find_binary T ''head'' else Inr (arg (head_path w))) = Inr p3"
    and r4: "(if falsy (tail_path w) then find_binary T ''tail'' else Inr (arg (tail_path w))) = Inr p4"
    and r5: "(if falsy (bunzip2_path w) then find_binary T ''bunzip2'' else Inr (arg (bunzip2_path w))) = Inr p5"
    and w3: "w3 = w\<lparr>bsdiff_path := Some p1, gzip_path := Some p2, head_path := Some p3,
                    tail_path := Some p4, bunzip2_path := Some p5\<rparr>"
    by (auto simp: find_bins_or_die_def Let_def split: sum.splits cong: if_cong)
  note i = resolve_idem [OF r1] resolve_idem [OF r2] resolve_idem [OF r3] resolve_idem [OF r4]
    resolve_idem [OF r5]
  show ?thesis unfolding w3 by (simp add: find_bins_or_die_def Let_def i bins_def cong: if_cong)
qed

lemma find_bins_same:
  assumes r: "find_bins_or_die T w = Returned u w3"
    and b: "bins v = bins w \<or> bins v = bins w3"
  shows "\<exists>v3. find_bins_or_die T v = Returned () v3 \<and> bins v3 = bins w3 \<and> files v3 = files v"
proof -
  have "result_of (find_bins_or_die T v) = Inr ()
      \<and> bins (world_of (find_bins_or_die T v)) = bins w3"
  proof (rule disjE [OF b])
    assume "bins v = bins w"
    from find_bins_cong [OF this, of T] r show ?thesis by simp
  next
    assume "bins v = bins w3"
    from find_bins_cong [OF this, of T] find_bins_idem [OF r] show ?thesis by simp
  qed
  then show ?thesis
    by (cases "find_bins_or_die T v") (auto dest: find_bins_ReturnedD)
qed

lemma create_bsdiff_binsD:
  assumes "create_bsdiff T old_file new_file temp_path w = Returned u w1"
  shows "\<exists>w3. find_bins_or_die T
               (w\<lparr>files := (files w)(temp_path @ ''.gz'' := None, temp_path := None)\<rparr>)
             = Returned () w3 \<and> bins w1 = bins w3"
  using assms
  by (auto simp: create_bsdiff_def Let_def prim_simps bins_def split: outcome.splits if_splits)

lemma sim_create_bsdiff:
  assumes r: "create_bsdiff T old_file new_file temp_path w = Returned u w1"
    and o: "files v old_file = files w old_file" and n: "files v new_file = files w new_file"
    and b: "bins v = bins w \<or> bins v = bins w1"
  shows "\<exists>v1. create_bsdiff T old_file new_file temp_path v = Returned () v1
          \<and> agree {old_file, new_file, temp_path, bsdiff_header_path temp_path,
                    raw_bsdiff_path temp_path} w1 v1"
proof -
  let ?rm = "\<lambda>x. x\<lparr>files := (files x)(temp_path @ ''.gz'' := None, temp_path := None)\<rparr>"
  from create_bsdiff_binsD [OF r] obtain w3 where
    fb: "find_bins_or_die T (?rm w) = Returned () w3" and b13: "bins w1 = bins w3" by blast
  from b b13 have "bins (?rm v) = bins (?rm w) \<or> bins (?rm v) = bins w3" by simp
  from find_bins_same [OF fb this] obtain v3 where
    fv: "find_bins_or_die T (?rm v) = Returned () v3" and bv: "bins v3 = bins w3"
    and f3: "files v3 = (files v)(temp_path @ ''.gz'' := None, temp_path := None)"
    by auto
  have io: "((files v)(temp_path @ ''.gz'' := None, temp_path := None)) old_file
      = ((files w)(temp_path @ ''.gz'' := None, temp_path := None)) old_file"
    using o by simp
  have inw: "((files v)(temp_path @ ''.gz'' := None, temp_path := None)) new_file
      = ((files w)(temp_path @ ''.gz'' := None, temp_path := None)) new_file"
    using n by simp
  note z = create_bsdiff_ReturnedD(1) [OF r]
  note fw = create_bsdiff_ReturnedD(2) [OF r]
  let ?r = "bsdiff_run T (((files w)(temp_path @ ''.gz'' := None, temp_path := None)) old_file)
              (((files w)(temp_path @ ''.gz'' := None, temp_path := None)) new_file)"
  have rv: "bsdiff_run T (files v3 old_file) (files v3 new_file) = ?r"
    unfolding f3 io inw ..
  define v1 where "v1 = v3\<lparr>calls := calls v3 @ [(Bsdiff, [arg (bsdiff_path v3), old_file, new_file, temp_path], 0)],
        files := (files v3)(temp_path \<mapsto> snd ?r, raw_bsdiff_path temp_path := None,
           bzipped_bsdiff_path temp_path := None, gzipped_bsdiff_path temp_path := None,
           bsdiff_header_path temp_path := None)\<rparr>"
  have cv: "create_bsdiff T old_file new_file temp_path v = Returned () v1"
    using fv z rv by (simp add: create_bsdiff_def Let_def prim_simps v1_def)
  have bb: "bins w1 = bins v1" using b13 bv by (simp add: v1_def)
  have ff: "\<forall>p\<in>{old_file, new_file, temp_path, bsdiff_header_path temp_path,
                    raw_bsdiff_path temp_path}. files w1 p = files v1 p"
    unfolding fw using o n by (simp add: v1_def f3)
  from cv bb ff show ?thesis unfolding agree_def by blast
qed

lemma sim_strip_header:
  assumes r: "strip_header T temp_path w = Returned u w1" and a: "agree S w v"
  shows "\<exists>v1. strip_header T temp_path v = Returned () v1 \<and> agree S w1 v1"
proof -
  note d = strip_header_ReturnedD [OF r]
  define v1 where "v1 = v\<lparr>files := (files v)(bsdiff_header_path temp_path \<mapsto>
      snd (head_run T 32 (Some []))),
      calls := calls v @ [(Head, [arg (head_path v), ''-c'', ''32'', bsdiff_header_path temp_path], 0)]\<rparr>"
  have "strip_header T temp_path v = Returned () v1"
    using d(1) by (simp add: strip_header_def Let_def prim_simps v1_def)
  moreover have "agree S w1 v1"
    using a d(2,4) unfolding agree_def by (simp add: v1_def)
  ultimately show ?thesis by blast
qed

lemma sim_take_remainder:
  assumes r: "take_remainder T temp_path w = Returned u w1" and a: "agree S w v"
    and t: "temp_path \<in> S"
  shows "\<exists>v1. take_remainder T temp_path v = Returned () v1 \<and> agree S w1 v1"
proof -
  note d = take_remainder_ReturnedD [OF r]
  from a t have e: "files v temp_path = files w temp_path" by (simp add: agree_def)
  define v1 where "v1 = v\<lparr>files := (files v)(raw_bsdiff_path temp_path \<mapsto>
            snd (bunzip2_run T (Some (snd (tail_run T 33 (files w temp_path))))),
          bzipped_bsdiff_path temp_path := None),
      calls := calls v @ [(Tail, [arg (tail_path v), ''-c'', ''+33'', temp_path], 0),
           (Bunzip2, [arg (bunzip2_path v), ''-d'', ''-q'', bzipped_bsdiff_path temp_path], 0)]\<rparr>"
  have "take_remainder T temp_path v = Returned () v1"
    using d(1,2) e
    by (simp add: take_remainder_def Let_def prim_simps v1_def path_facts(2) [symmetric])
  moreover have "agree S w1 v1"
    using a d(3,5) unfolding agree_def by (simp add: v1_def)
  ultimately show ?thesis by blast
qed

lemma sim_prepend_header:
  assumes r: "prepend_header T save_patch_path temp_path w = Returned u w1" and a: "agree S w v"
    and h: "bsdiff_header_path temp_path \<in> S" and p: "raw_bsdiff_path temp_path \<in> S"
  shows "\<exists>v1. prepend_header T save_patch_path temp_path v = Returned () v1
          \<and> agree (insert (rebuilt_bsdiff_path save_patch_path temp_path) S) w1 v1"
proof -
  let ?rb = "rebuilt_bsdiff_path save_patch_path temp_path"
  let ?f3 = "\<lambda>x. (files x)(?rb := None, ?rb @ ''.gz'' := None, ?rb \<mapsto> [])"
  note d = prepend_header_ReturnedD [OF r]
  from a h p have e: "?f3 v (bsdiff_header_path temp_path) = ?f3 w (bsdiff_header_path temp_path)"
    "?f3 v (raw_bsdiff_path temp_path) = ?f3 w (raw_bsdiff_path temp_path)"
    by (simp_all add: agree_def)
  let ?c = "cat_run T (?f3 w (bsdiff_header_path temp_path)) (?f3 w (raw_bsdiff_path temp_path))"
  define v1 where "v1 = v\<lparr>files := (?f3 v)(?rb \<mapsto> snd ?c),
      calls := calls v @ [(Cat, [''cat'', bsdiff_header_path temp_path, raw_bsdiff_path temp_path], 0)]\<rparr>"
  have "prepend_header T save_patch_path temp_path v = Returned () v1"
    using d(1) e by (simp add: prepend_header_def Let_def prim_simps v1_def del: fun_upd_apply)
  moreover have "agree (insert ?rb S) w1 v1"
    using a d(4) unfolding agree_def d(2) by (simp add: v1_def)
  ultimately show ?thesis by blast
qed

lemma sim_gzip_patch:
  assumes r: "gzip_patch T save_patch_path temp_path w = Returned n w1" and a: "agree S w v"
    and h: "rebuilt_bsdiff_path save_patch_path temp_path \<in> S"
  shows "\<exists>v1. gzip_patch T save_patch_path temp_path v = Returned n v1 \<and> agree S w1 v1"
proof -
  let ?rb = "rebuilt_bsdiff_path save_patch_path temp_path"
  note d = gzip_patch_ReturnedD [OF r]
  from a h have e: "files v ?rb = files w ?rb" by (simp add: agree_def)
  define v1 where "v1 = v\<lparr>calls := calls v @ [(Gzip_patch, [arg (gzip_path v), ''-9'', ?rb], 0)],
      files := (files v)(?rb @ ''.gz'' \<mapsto> snd (gzip_run T 9 ?rb (files w ?rb)), ?rb := None)\<rparr>"
  have "gzip_patch T save_patch_path temp_path v = Returned n v1"
    using d(1,2) e by (simp add: gzip_patch_def Let_def prim_simps v1_def os_stat_size_def)
  moreover have "agree S w1 v1"
    using a d(5) unfolding agree_def d(3) by (simp add: v1_def)
  ultimately show ?thesis by blast
qed

lemma sim_gzip_new_apk:
  assumes r: "gzip_new_apk T new_file temp_path w = Returned n w1" and a: "agree S w v"
    and h: "new_file \<in> S"
  shows "\<exists>v1. gzip_new_apk T new_file temp_path v = Returned n v1"
proof -
  note d = gzip_new_apk_ReturnedD [OF r]
  from a h have e: "((files v)(temp_path \<mapsto> [])) new_file = ((files w)(temp_path \<mapsto> [])) new_file"
    by (simp add: agree_def)
  show ?thesis
    using d(1,2) e by (simp add: gzip_new_apk_def Let_def prim_simps os_stat_size_def)
qed

section \<open>Failing tools\<close>

text \<open>
  Claim C4, as amended. Whenever one of the seven processes that \<^verbatim>\<open>calculate_sizes\<close>
  starts exits with a non-zero status, the call raises at once: the failing process is
  the last one started, the result is the exception of that step and no dictionary is
  returned. The exception carries the exit status and is particular to the step: the
  \<^verbatim>\<open>CalledProcessError\<close> with the command line for bsdiff, bunzip2 and gzip of the
  patch, the messages naming the tail step, the cat step and the gzipping of the new APK,
  and for head the message ``Problem at the bsdiff step''. Two steps or two statuses with
  the same exception are the same status and the same step or command line.
\<close>

theorem failed_step_aborts:
  assumes "(s, argv, rc) \<in> set (new_calls w (calculate_sizes T old_file new_file save_patch_path temp_path w))"
    and "rc \<noteq> 0"
  shows "result_of (calculate_sizes T old_file new_file save_patch_path temp_path w)
           = Inl (step_error s argv rc)
       \<and> last (calls (world_of (calculate_sizes T old_file new_file save_patch_path temp_path w)))
           = (s, argv, rc)
       \<and> (\<forall>s' argv' rc'. step_error s' argv' rc' = step_error s argv rc
             \<longrightarrow> rc' = rc \<and> (s' = s \<or> argv' = argv))"
proof -
  let ?out = "calculate_sizes T old_file new_file save_patch_path temp_path w"
  from aborts_calculate_sizes [of w T old_file new_file save_patch_path temp_path]
  obtain cs where cs: "calls (world_of ?out) = calls w @ cs"
    and f: "\<forall>c\<in>set cs. snd (snd c) \<noteq> 0 \<longrightarrow>
              result_of ?out = Inl (step_error (fst c) (fst (snd c)) (snd (snd c)))"
    and b: "\<forall>c\<in>set (butlast cs). snd (snd c) = 0"
    unfolding aborts_at_failure_def by blast
  from cs have nc: "new_calls w ?out = cs" by (simp add: new_calls_def)
  with assms have m: "(s, argv, rc) \<in> set cs" by simp
  with f assms(2) have r: "result_of ?out = Inl (step_error s argv rc)" by fastforce
  from m b assms(2) have "(s, argv, rc) \<notin> set (butlast cs)" by fastforce
  with m have l: "(s, argv, rc) = last cs" by (rule in_set_not_butlast)
  from m have "cs \<noteq> []" by auto
  with cs l have "last (calls (world_of ?out)) = (s, argv, rc)" by simp
  with r show ?thesis using step_error_inj by blast
qed

theorem failed_step_aborts_witness:
  "(Tail, [''/usr/bin/tail'', ''-c'', ''+33'', ''/tmp/patch.tmp''], 2)
     \<in> set (new_calls demo_world (calculate_sizes demo_tools_tail_fails ''/sdcard/old.apk''
                ''/sdcard/new.apk'' None ''/tmp/patch.tmp'' demo_world))
   \<and> (2::int) \<noteq> 0
   \<and> result_of (calculate_sizes demo_tools_tail_fails ''/sdcard/old.apk''
                ''/sdcard/new.apk'' None ''/tmp/patch.tmp'' demo_world)
       = Inl (Exception ''Problem at the tail step, returned code: 2'')"
proof -
  have h: "(Tail, [''/usr/bin/tail'', ''-c'', ''+33'', ''/tmp/patch.tmp''], 2)
     \<in> set (new_calls demo_world (calculate_sizes demo_tools_tail_fails ''/sdcard/old.apk''
                ''/sdcard/new.apk'' None ''/tmp/patch.tmp'' demo_world))"
    by code_simp
  have z: "(2::int) \<noteq> 0" by simp
  have e: "step_error Tail [''/usr/bin/tail'', ''-c'', ''+33'', ''/tmp/patch.tmp''] 2
      = Exception ''Problem at the tail step, returned code: 2''"
    by code_simp
  from failed_step_aborts [OF h z]
  have "result_of (calculate_sizes demo_tools_tail_fails ''/sdcard/old.apk''
                ''/sdcard/new.apk'' None ''/tmp/patch.tmp'' demo_world)
       = Inl (step_error Tail [''/usr/bin/tail'', ''-c'', ''+33'', ''/tmp/patch.tmp''] 2)"
    by (rule conjunct1)
  then have r: "result_of (calculate_sizes demo_tools_tail_fails ''/sdcard/old.apk''
                ''/sdcard/new.apk'' None ''/tmp/patch.tmp'' demo_world)
       = Inl (Exception ''Problem at the tail step, returned code: 2'')"
    unfolding e .
  from h z r show ?thesis by (intro conjI)
qed

text \<open>
  Claim C4 as stated fails for the head step: bsdiff exits with status 0, \<^verbatim>\<open>head\<close>
  exits with status 3, and the message of the exception (line 142) names the bsdiff step.
\<close>

theorem head_failure_reported_as_bsdiff:
  "result_of (calculate_sizes demo_tools_head_fails ''/sdcard/old.apk'' ''/sdcard/new.apk'' None
      ''/tmp/patch.tmp'' demo_world)
     = Inl (Exception ''Problem at the bsdiff step, returned code: 3'')
   \<and> new_calls demo_world (calculate_sizes demo_tools_head_fails ''/sdcard/old.apk''
        ''/sdcard/new.apk'' None ''/tmp/patch.tmp'' demo_world)
     = [(Bsdiff, [''/usr/bin/bsdiff'', ''/sdcard/old.apk'', ''/sdcard/new.apk'', ''/tmp/patch.tmp''], 0),
        (Head, [''/usr/bin/head'', ''-c'', ''32'', ''/tmp/patch.tmp.raw_bsdiff_header''], 3)]"
  by code_simp

text \<open>
  Claim C5. When the bsdiff process exits with a non-zero status, the call raises the
  \<^verbatim>\<open>CalledProcessError\<close> with that status and the bsdiff command line, bsdiff is the
  only process that was started, and every file present after the call was there
  before it with the same contents: no new file is left behind.
\<close>

theorem bsdiff_failure:
  assumes m: "(Bsdiff, argv, rc) \<in> set (new_calls w (calculate_sizes T old_file new_file save_patch_path temp_path w))"
    and rc: "rc \<noteq> 0"
  shows "result_of (calculate_sizes T old_file new_file save_patch_path temp_path w)
           = Inl (CalledProcessError rc argv)
       \<and> argv = [arg (bsdiff_path (world_of (calculate_sizes T old_file new_file save_patch_path temp_path w))),
                  old_file, new_file, temp_path]
       \<and> new_calls w (calculate_sizes T old_file new_file save_patch_path temp_path w) = [(Bsdiff, argv, rc)]
       \<and> (\<forall>p. files (world_of (calculate_sizes T old_file new_file save_patch_path temp_path w)) p \<noteq> None
             \<longrightarrow> files (world_of (calculate_sizes T old_file new_file save_patch_path temp_path w)) p = files w p)"
proof (cases "create_bsdiff T old_file new_file temp_path w")
  case (Raised e w1)
  then have out: "calculate_sizes T old_file new_file save_patch_path temp_path w = Raised e w1"
    by (simp add: calculate_sizes_def transcode_def)
  from create_bsdiff_RaisedD [OF Raised] have
    f: "files w1 = (files w)(temp_path @ ''.gz'' := None, temp_path := None)"
    and c: "calls w1 = calls w \<or>
         (\<exists>rc. rc \<noteq> 0 \<and> e = CalledProcessError rc [arg (bsdiff_path w1), old_file, new_file, temp_path]
            \<and> calls w1 = calls w @ [(Bsdiff, [arg (bsdiff_path w1), old_file, new_file, temp_path], rc)])"
    by blast+
  from m out have "calls w1 \<noteq> calls w" by (auto simp: new_calls_def)
  with c obtain rc' where e: "e = CalledProcessError rc' [arg (bsdiff_path w1), old_file, new_file, temp_path]"
    and c': "calls w1 = calls w @ [(Bsdiff, [arg (bsdiff_path w1), old_file, new_file, temp_path], rc')]"
    by blast
  from m out c' have "argv = [arg (bsdiff_path w1), old_file, new_file, temp_path]" "rc' = rc"
    by (simp_all add: new_calls_def)
  with out e c' f show ?thesis by (simp add: new_calls_def)
next
  case (Returned u w1)
  from create_bsdiff_ReturnedD(3) [OF Returned]
  have c1: "calls w1 = calls w @ [(Bsdiff, [arg (bsdiff_path w1), old_file, new_file, temp_path], 0)]" .
  from appends_after_create [OF Returned, of save_patch_path]
  obtain cs where cs: "calls (world_of (calculate_sizes T old_file new_file save_patch_path temp_path w))
       = calls w1 @ cs" and nb: "\<forall>c\<in>set cs. fst c \<noteq> Bsdiff"
    unfolding appends_after_bsdiff_def by blast
  from m c1 cs have "(Bsdiff, argv, rc) = (Bsdiff, [arg (bsdiff_path w1), old_file, new_file, temp_path], 0)
      \<or> (Bsdiff, argv, rc) \<in> set cs"
    by (auto simp: new_calls_def)
  with nb rc show ?thesis by fastforce
qed

theorem bsdiff_failure_witness:
  "(Bsdiff, [''/usr/bin/bsdiff'', ''/sdcard/missing.apk'', ''/sdcard/new.apk'', ''/tmp/patch.tmp''], 1)
     \<in> set (new_calls demo_world (calculate_sizes demo_tools ''/sdcard/missing.apk''
                ''/sdcard/new.apk'' None ''/tmp/patch.tmp'' demo_world))
   \<and> (1::int) \<noteq> 0
   \<and> result_of (calculate_sizes demo_tools ''/sdcard/missing.apk''
                ''/sdcard/new.apk'' None ''/tmp/patch.tmp'' demo_world)
       = Inl (CalledProcessError 1
               [''/usr/bin/bsdiff'', ''/sdcard/missing.apk'', ''/sdcard/new.apk'', ''/tmp/patch.tmp''])"
proof -
  have h: "(Bsdiff, [''/usr/bin/bsdiff'', ''/sdcard/missing.apk'', ''/sdcard/new.apk'', ''/tmp/patch.tmp''], 1)
     \<in> set (new_calls demo_world (calculate_sizes demo_tools ''/sdcard/missing.apk''
                ''/sdcard/new.apk'' None ''/tmp/patch.tmp'' demo_world))"
    by code_simp
  have z: "(1::int) \<noteq> 0" by simp
  from bsdiff_failure [OF h z]
  have r: "result_of (calculate_sizes demo_tools ''/sdcard/missing.apk''
                ''/sdcard/new.apk'' None ''/tmp/patch.tmp'' demo_world)
       = Inl (CalledProcessError 1
               [''/usr/bin/bsdiff'', ''/sdcard/missing.apk'', ''/sdcard/new.apk'', ''/tmp/patch.tmp''])"
    by (rule conjunct1)
  from h z r show ?thesis by (intro conjI)
qed

section \<open>The input files\<close>

text \<open>
  Claim C6, as amended. When neither \<^verbatim>\<open>old_file\<close> nor \<^verbatim>\<open>new_file\<close> is one of the
  paths the pipeline works on (\<^verbatim>\<open>temp_path\<close>, \<^verbatim>\<open>temp_path\<close> plus \<^verbatim>\<open>.gz\<close>,
  \<^verbatim>\<open>.raw_bsdiff\<close>, \<^verbatim>\<open>.raw_bsdiff.bz2\<close>, \<^verbatim>\<open>.raw_bsdiff.gz\<close> or
  \<^verbatim>\<open>.raw_bsdiff_header\<close>, the rebuilt path and the rebuilt path plus \<^verbatim>\<open>.gz\<close>), the
  bytes of both input files after the call are their bytes before it, whether the call
  returns or raises.
\<close>

theorem inputs_untouched:
  assumes "old_file \<notin> set (work_paths save_patch_path temp_path)"
    and "new_file \<notin> set (work_paths save_patch_path temp_path)"
  shows "files (world_of (calculate_sizes T old_file new_file save_patch_path temp_path w)) old_file
           = files w old_file
       \<and> files (world_of (calculate_sizes T old_file new_file save_patch_path temp_path w)) new_file
           = files w new_file"
  using frame_calculate_sizes [OF assms(1)] frame_calculate_sizes [OF assms(2)] by blast

theorem inputs_untouched_witness:
  "''/sdcard/old.apk'' \<notin> set (work_paths None ''/tmp/patch.tmp'')
   \<and> ''/sdcard/new.apk'' \<notin> set (work_paths None ''/tmp/patch.tmp'')
   \<and> files (world_of (calculate_sizes demo_tools ''/sdcard/old.apk'' ''/sdcard/new.apk'' None
                ''/tmp/patch.tmp'' demo_world)) ''/sdcard/old.apk'' = Some [1, 2, 3]
   \<and> files (world_of (calculate_sizes demo_tools ''/sdcard/old.apk'' ''/sdcard/new.apk'' None
                ''/tmp/patch.tmp'' demo_world)) ''/sdcard/new.apk'' = Some [1, 2, 3, 4, 5]"
proof -
  have a: "''/sdcard/old.apk'' \<notin> set (work_paths None ''/tmp/patch.tmp'')" by code_simp
  have b: "''/sdcard/new.apk'' \<notin> set (work_paths None ''/tmp/patch.tmp'')" by code_simp
  have o: "files demo_world ''/sdcard/old.apk'' = Some [1, 2, 3]" by code_simp
  have n: "files demo_world ''/sdcard/new.apk'' = Some [1, 2, 3, 4, 5]" by code_simp
  from inputs_untouched [OF a b, of demo_tools demo_world]
  have "files (world_of (calculate_sizes demo_tools ''/sdcard/old.apk'' ''/sdcard/new.apk'' None
                ''/tmp/patch.tmp'' demo_world)) ''/sdcard/old.apk'' = Some [1, 2, 3]"
    and "files (world_of (calculate_sizes demo_tools ''/sdcard/old.apk'' ''/sdcard/new.apk'' None
                ''/tmp/patch.tmp'' demo_world)) ''/sdcard/new.apk'' = Some [1, 2, 3, 4, 5]"
    unfolding o n by blast+
  with a b show ?thesis by (intro conjI)
qed

text \<open>
  Claim C6 as stated fails when an input is at a work path: lines 116-117 remove
  whatever is at \<^verbatim>\<open>temp_path\<close> before bsdiff reads the inputs, so an old file at
  \<^verbatim>\<open>/tmp/patch.tmp\<close> with the temp directory \<^verbatim>\<open>/tmp\<close> is gone after the call.
\<close>

theorem input_at_temp_path_deleted:
  "files (world_of (calculate_sizes demo_tools ''/tmp/patch.tmp'' ''/sdcard/new.apk'' None
             ''/tmp/patch.tmp'' demo_world_stale)) ''/tmp/patch.tmp''
     \<noteq> files demo_world_stale ''/tmp/patch.tmp''"
  by code_simp

section \<open>The two measurements\<close>

text \<open>
  Claim C8. In a call that returns, both artifacts come from the same gzip at the same
  effort, 9: the file at the rebuilt path plus \<^verbatim>\<open>.gz\<close> is what \<open>gzip_run T 9\<close>
  makes of the rebuilt file and \<^verbatim>\<open>bsdiff_patch_size\<close> is its length; the file written
  to \<^verbatim>\<open>temp_path\<close> is what \<open>gzip_run T 9\<close> makes of the new file and
  \<^verbatim>\<open>gzipped_new_file_size\<close> is its length; and the two processes were started from
  the same \<^verbatim>\<open>gzip_path\<close>, each with \<^verbatim>\<open>-9\<close>.
\<close>

theorem both_sizes_gzip_9:
  assumes "result_of (calculate_sizes T old_file new_file save_patch_path temp_path w) = Inr r"
  defines "rebuilt \<equiv> rebuilt_bsdiff_path save_patch_path temp_path"
  defines "w4 \<equiv> world_of (transcode T old_file new_file save_patch_path temp_path w)"
  defines "w5 \<equiv> world_of (gzip_patch T save_patch_path temp_path w4)"
  defines "w6 \<equiv> world_of (gzip_new_apk T new_file temp_path w5)"
  defines "w' \<equiv> world_of (calculate_sizes T old_file new_file save_patch_path temp_path w)"
  shows "files w5 (rebuilt @ ''.gz'') = Some (snd (gzip_run T 9 rebuilt (files w4 rebuilt)))
       \<and> bsdiff_patch_size r = length (snd (gzip_run T 9 rebuilt (files w4 rebuilt)))
       \<and> files w6 temp_path = Some (snd (gzip_run T 9 new_file (files (open_w temp_path w5) new_file)))
       \<and> gzipped_new_file_size r
            = length (snd (gzip_run T 9 new_file (files (open_w temp_path w5) new_file)))
       \<and> (Gzip_patch, [arg (gzip_path w'), ''-9'', rebuilt], 0)
            \<in> set (new_calls w (calculate_sizes T old_file new_file save_patch_path temp_path w))
       \<and> (Gzip_new, [arg (gzip_path w'), ''--keep'', ''-c'', ''-9'', new_file], 0)
            \<in> set (new_calls w (calculate_sizes T old_file new_file save_patch_path temp_path w))"
proof (cases T old_file new_file save_patch_path temp_path w rule: calculate_sizes_cases)
  case (finished w1 w2 w3 w4' n5 w5' n6 w6')
  from finished_transcode [OF finished(1-4)] have e4: "w4 = w4'" by (simp add: w4_def)
  from finished(5) e4 have e5: "w5 = w5'" by (simp add: w5_def)
  from finished(6) e5 have e6: "w6 = w6'" by (simp add: w6_def)
  note d5 = gzip_patch_ReturnedD(2,3) [OF finished(5)]
  note d6 = gzip_new_apk_ReturnedD(2,3) [OF finished(6)]
  from assms(1) finished(7) have r: "r = \<lparr>gzipped_new_file_size = n6, bsdiff_patch_size = n5\<rparr>"
    by simp
  have 1: "files w5 (rebuilt @ ''.gz'') = Some (snd (gzip_run T 9 rebuilt (files w4 rebuilt)))"
    unfolding e5 e4 rebuilt_def by (simp add: d5(2))
  have 2: "bsdiff_patch_size r = length (snd (gzip_run T 9 rebuilt (files w4 rebuilt)))"
    unfolding e4 rebuilt_def r using d5(1) by simp
  have 3: "files w6 temp_path = Some (snd (gzip_run T 9 new_file (files (open_w temp_path w5) new_file)))"
    unfolding e6 e5 by (simp add: d6(2) prim_simps)
  have 4: "gzipped_new_file_size r
            = length (snd (gzip_run T 9 new_file (files (open_w temp_path w5) new_file)))"
    unfolding e5 r using d6(1) by (simp add: prim_simps)
  from success_trace [OF assms(1)]
  have 5: "(Gzip_patch, [arg (gzip_path w'), ''-9'', rebuilt], 0)
            \<in> set (new_calls w (calculate_sizes T old_file new_file save_patch_path temp_path w))"
    and 6: "(Gzip_new, [arg (gzip_path w'), ''--keep'', ''-c'', ''-9'', new_file], 0)
            \<in> set (new_calls w (calculate_sizes T old_file new_file save_patch_path temp_path w))"
    unfolding w'_def rebuilt_def by simp_all
  from 1 2 3 4 5 6 show ?thesis by (intro conjI)
qed (use assms(1) in simp_all)

theorem both_sizes_gzip_9_witness:
  "result_of (calculate_sizes demo_tools ''/sdcard/old.apk'' ''/sdcard/new.apk'' None
      ''/tmp/patch.tmp'' demo_world) = Inr \<lparr>gzipped_new_file_size = 6, bsdiff_patch_size = 9\<rparr>
   \<and> (Gzip_patch, [''/usr/bin/gzip'', ''-9'', ''/tmp/patch.tmp.raw_bsdiff.rebuilt''], 0)
        \<in> set (new_calls demo_world (calculate_sizes demo_tools ''/sdcard/old.apk''
                   ''/sdcard/new.apk'' None ''/tmp/patch.tmp'' demo_world))
   \<and> (Gzip_new, [''/usr/bin/gzip'', ''--keep'', ''-c'', ''-9'', ''/sdcard/new.apk''], 0)
        \<in> set (new_calls demo_world (calculate_sizes demo_tools ''/sdcard/old.apk''
                   ''/sdcard/new.apk'' None ''/tmp/patch.tmp'' demo_world))"
proof -
  have h: "result_of (calculate_sizes demo_tools ''/sdcard/old.apk'' ''/sdcard/new.apk'' None
      ''/tmp/patch.tmp'' demo_world) = Inr \<lparr>gzipped_new_file_size = 6, bsdiff_patch_size = 9\<rparr>"
    by code_simp
  have g: "arg (gzip_path (world_of (calculate_sizes demo_tools ''/sdcard/old.apk''
      ''/sdcard/new.apk'' None ''/tmp/patch.tmp'' demo_world))) = ''/usr/bin/gzip''"
    by code_simp
  have p: "rebuilt_bsdiff_path None ''/tmp/patch.tmp'' = ''/tmp/patch.tmp.raw_bsdiff.rebuilt''"
    by code_simp
  note t = both_sizes_gzip_9 [OF h, unfolded g p]
  from t have 5: "(Gzip_patch, [''/usr/bin/gzip'', ''-9'', ''/tmp/patch.tmp.raw_bsdiff.rebuilt''], 0)
        \<in> set (new_calls demo_world (calculate_sizes demo_tools ''/sdcard/old.apk''
                   ''/sdcard/new.apk'' None ''/tmp/patch.tmp'' demo_world))"
    by blast
  from t have 6: "(Gzip_new, [''/usr/bin/gzip'', ''--keep'', ''-c'', ''-9'', ''/sdcard/new.apk''], 0)
        \<in> set (new_calls demo_world (calculate_sizes demo_tools ''/sdcard/old.apk''
                   ''/sdcard/new.apk'' None ''/tmp/patch.tmp'' demo_world))"
    by blast
  from h 5 6 show ?thesis by (intro conjI)
qed

text \<open>
  Claim C7, as amended. When \<^verbatim>\<open>new_file\<close> is none of the paths the pipeline works on,
  the \<^verbatim>\<open>gzipped_new_file_size\<close> of a call that returns is the length of what gzip at
  effort 9 makes of the new file as it was before the call: the diff computation has
  not altered the measurement.
\<close>

theorem new_file_size_is_direct_gzip:
  assumes "result_of (calculate_sizes T old_file new_file save_patch_path temp_path w) = Inr r"
    and "new_file \<notin> set (work_paths save_patch_path temp_path)"
  shows "gzipped_new_file_size r = length (snd (gzip_run T 9 new_file (files w new_file)))"
proof (cases T old_file new_file save_patch_path temp_path w rule: calculate_sizes_cases)
  case (finished w1 w2 w3 w4 n5 w5 n6 w6)
  from assms(2) have d: "new_file \<noteq> temp_path @ ''.gz''" "new_file \<noteq> temp_path"
    "new_file \<noteq> raw_bsdiff_path temp_path"
    "new_file \<noteq> bzipped_bsdiff_path temp_path" "new_file \<noteq> gzipped_bsdiff_path temp_path"
    "new_file \<noteq> bsdiff_header_path temp_path"
    "new_file \<noteq> rebuilt_bsdiff_path save_patch_path temp_path"
    "new_file \<noteq> rebuilt_bsdiff_path save_patch_path temp_path @ ''.gz''"
    by (simp_all add: work_paths_def)
  from frame_create_bsdiff [OF d(1-6), of T old_file new_file w] finished(1)
  have "files w1 new_file = files w new_file" by simp
  with frame_strip_header [OF d(6), of T w1] finished(2)
  have "files w2 new_file = files w new_file" by simp
  with frame_take_remainder [OF d(4) d(3), of T w2] finished(3)
  have "files w3 new_file = files w new_file" by simp
  with frame_prepend_header [OF d(7,8), of T w3] finished(4)
  have "files w4 new_file = files w new_file" by simp
  with frame_gzip_patch [OF d(7,8), of T w4] finished(5)
  have f5: "files w5 new_file = files w new_file" by simp
  from assms(1) finished(7) have "gzipped_new_file_size r = n6" by auto
  with gzip_new_apk_ReturnedD(2) [OF finished(6)] d(2) f5 show ?thesis by simp
qed (use assms(1) in simp_all)

theorem new_file_size_is_direct_gzip_witness:
  "result_of (calculate_sizes demo_tools ''/sdcard/old.apk'' ''/sdcard/new.apk'' None
      ''/tmp/patch.tmp'' demo_world) = Inr \<lparr>gzipped_new_file_size = 6, bsdiff_patch_size = 9\<rparr>
   \<and> ''/sdcard/new.apk'' \<notin> set (work_paths None ''/tmp/patch.tmp'')
   \<and> gzipped_new_file_size \<lparr>gzipped_new_file_size = 6, bsdiff_patch_size = 9\<rparr>
       = length (snd (gzip_run demo_tools 9 ''/sdcard/new.apk'' (files demo_world ''/sdcard/new.apk'')))"
proof -
  have h: "result_of (calculate_sizes demo_tools ''/sdcard/old.apk'' ''/sdcard/new.apk'' None
      ''/tmp/patch.tmp'' demo_world) = Inr \<lparr>gzipped_new_file_size = 6, bsdiff_patch_size = 9\<rparr>"
    by code_simp
  have n: "''/sdcard/new.apk'' \<notin> set (work_paths None ''/tmp/patch.tmp'')" by code_simp
  from h n new_file_size_is_direct_gzip [OF h n] show ?thesis by (intro conjI)
qed

text \<open>
  Claim C7 as stated fails when the new file is at a work path. With
  \<^verbatim>\<open>new_file = temp_path + '.raw_bsdiff'\<close>, line 130 removes the new file after bsdiff
  has read it and line 156 writes the decompressed payload there, so line 183
  compresses the payload: the call returns 9 where gzip of the new file gives 6 bytes.
\<close>

theorem new_file_at_work_path_measured_wrong:
  "result_of (calculate_sizes demo_tools ''/sdcard/old.apk'' ''/tmp/patch.tmp.raw_bsdiff'' None
      ''/tmp/patch.tmp'' demo_world_leftover)
     = Inr \<lparr>gzipped_new_file_size = 9, bsdiff_patch_size = 9\<rparr>
   \<and> length (snd (gzip_run demo_tools 9 ''/tmp/patch.tmp.raw_bsdiff''
        (files demo_world_leftover ''/tmp/patch.tmp.raw_bsdiff''))) = 6"
  by code_simp

section \<open>What a call leaves in the file system\<close>

text \<open>
  Claim C10, as amended. When \<^verbatim>\<open>save_patch_path\<close> is a non-empty path \<open>p\<close>,
  \<^verbatim>\<open>temp_path\<close> is not \<open>p\<close> plus \<^verbatim>\<open>.gz\<close>, \<open>p\<close> is not \<^verbatim>\<open>temp_path\<close> plus
  \<^verbatim>\<open>.raw_bsdiff\<close>, and the call returns, then the file at \<open>p\<close> plus \<^verbatim>\<open>.gz\<close> is the
  gzip of the rebuilt patch, its size is the returned \<^verbatim>\<open>bsdiff_patch_size\<close>, and no
  file is at \<open>p\<close> itself.
\<close>

theorem saved_patch_is_gz:
  assumes "result_of (calculate_sizes T old_file new_file (Some p) temp_path w) = Inr r"
    and "p \<noteq> []" and "temp_path \<noteq> p @ ''.gz''" and "p \<noteq> raw_bsdiff_path temp_path"
  defines "w4 \<equiv> world_of (transcode T old_file new_file (Some p) temp_path w)"
  defines "w' \<equiv> world_of (calculate_sizes T old_file new_file (Some p) temp_path w)"
  shows "files w' (p @ ''.gz'') = Some (snd (gzip_run T 9 p (files w4 p)))
       \<and> os_stat_size (p @ ''.gz'') w' = Inr (bsdiff_patch_size r)
       \<and> files w' p = None"
proof (cases T old_file new_file "Some p" temp_path w rule: calculate_sizes_cases)
  case (finished w1 w2 w3 w4' n5 w5 n6 w6)
  from assms(2) have rb: "rebuilt_bsdiff_path (Some p) temp_path = p"
    by (simp add: rebuilt_bsdiff_path_def falsy_def arg_def)
  from finished_transcode [OF finished(1-4)] have e4: "w4 = w4'" by (simp add: w4_def)
  note d5 = gzip_patch_ReturnedD(2,3) [OF finished(5), unfolded rb]
  note d6 = gzip_new_apk_ReturnedD(3) [OF finished(6)]
  from assms(1) finished(7) have r: "bsdiff_patch_size r = n5" by auto
  from assms(4) have g: "p @ ''.gz'' \<noteq> gzipped_bsdiff_path temp_path"
    by (simp add: gzipped_bsdiff_path_def)
  from assms(3) have t: "p @ ''.gz'' \<noteq> temp_path" by simp
  have f: "files w' = (files w6)(temp_path := None, gzipped_bsdiff_path temp_path := None)"
    using finished(7) by (simp add: w'_def)
  have 1: "files w' (p @ ''.gz'') = Some (snd (gzip_run T 9 p (files w4 p)))"
    unfolding f e4 using g t by (simp add: d6 d5(2))
  have 2: "os_stat_size (p @ ''.gz'') w' = Inr (bsdiff_patch_size r)"
    using 1 d5(1) r e4 by (simp add: os_stat_size_def)
  have 3: "files w' p = None"
    unfolding f by (simp add: d6 d5(2))
  from 1 2 3 show ?thesis by (intro conjI)
qed (use assms(1) in simp_all)

theorem saved_patch_is_gz_witness:
  "result_of (calculate_sizes demo_tools ''/sdcard/old.apk'' ''/sdcard/new.apk''
      (Some ''/sdcard/patch'') ''/tmp/patch.tmp'' demo_world)
     = Inr \<lparr>gzipped_new_file_size = 6, bsdiff_patch_size = 9\<rparr>
   \<and> ''/sdcard/patch'' \<noteq> [] \<and> ''/tmp/patch.tmp'' \<noteq> ''/sdcard/patch'' @ ''.gz''
   \<and> ''/sdcard/patch'' \<noteq> raw_bsdiff_path ''/tmp/patch.tmp''
   \<and> os_stat_size (''/sdcard/patch'' @ ''.gz'')
        (world_of (calculate_sizes demo_tools ''/sdcard/old.apk'' ''/sdcard/new.apk''
           (Some ''/sdcard/patch'') ''/tmp/patch.tmp'' demo_world)) = Inr 9
   \<and> files (world_of (calculate_sizes demo_tools ''/sdcard/old.apk'' ''/sdcard/new.apk''
           (Some ''/sdcard/patch'') ''/tmp/patch.tmp'' demo_world)) ''/sdcard/patch'' = None"
proof -
  have h: "result_of (calculate_sizes demo_tools ''/sdcard/old.apk'' ''/sdcard/new.apk''
      (Some ''/sdcard/patch'') ''/tmp/patch.tmp'' demo_world)
     = Inr \<lparr>gzipped_new_file_size = 6, bsdiff_patch_size = 9\<rparr>"
    by code_simp
  have a: "''/sdcard/patch'' \<noteq> []" by simp
  have b: "''/tmp/patch.tmp'' \<noteq> ''/sdcard/patch'' @ ''.gz''" by simp
  have c: "''/sdcard/patch'' \<noteq> raw_bsdiff_path ''/tmp/patch.tmp''" by code_simp
  have s: "bsdiff_patch_size \<lparr>gzipped_new_file_size = 6, bsdiff_patch_size = 9\<rparr> = 9" by simp
  note t = saved_patch_is_gz [OF h a b c, unfolded s]
  from t have 1: "os_stat_size (''/sdcard/patch'' @ ''.gz'')
        (world_of (calculate_sizes demo_tools ''/sdcard/old.apk'' ''/sdcard/new.apk''
           (Some ''/sdcard/patch'') ''/tmp/patch.tmp'' demo_world)) = Inr 9" by blast
  from t have 2: "files (world_of (calculate_sizes demo_tools ''/sdcard/old.apk'' ''/sdcard/new.apk''
           (Some ''/sdcard/patch'') ''/tmp/patch.tmp'' demo_world)) ''/sdcard/patch'' = None" by blast
  from h a b c 1 2 show ?thesis by (intro conjI)
qed

text \<open>
  Claim C10 as stated fails when \<^verbatim>\<open>temp_path\<close> is the save path plus \<^verbatim>\<open>.gz\<close>:
  line 181 overwrites the compressed patch with the compressed new file and line 193
  removes it, so the call returns and nothing is at the save path plus \<^verbatim>\<open>.gz\<close>.
\<close>

theorem saved_patch_lost_when_temp_is_gz:
  "result_of (calculate_sizes demo_tools ''/sdcard/old.apk'' ''/sdcard/new.apk''
      (Some ''/tmp/out'') ''/tmp/out.gz'' demo_world)
     = Inr \<lparr>gzipped_new_file_size = 6, bsdiff_patch_size = 9\<rparr>
   \<and> files (world_of (calculate_sizes demo_tools ''/sdcard/old.apk'' ''/sdcard/new.apk''
           (Some ''/tmp/out'') ''/tmp/out.gz'' demo_world)) (''/tmp/out'' @ ''.gz'') = None"
  by code_simp

text \<open>
  Claim C3, as amended. After a call that returns, no file is at \<^verbatim>\<open>temp_path\<close>, at
  \<^verbatim>\<open>temp_path\<close> plus \<^verbatim>\<open>.raw_bsdiff.gz\<close>, at \<^verbatim>\<open>temp_path\<close> plus
  \<^verbatim>\<open>.raw_bsdiff.bz2\<close> or at the rebuilt path. A call that raises cleans nothing up:
  when bsdiff has written its output and the rebuilt path and the rebuilt path plus
  \<^verbatim>\<open>.gz\<close> are not \<^verbatim>\<open>temp_path\<close>, a file is still at \<^verbatim>\<open>temp_path\<close> after the
  raise.
\<close>

theorem cleanup_on_return_only:
  defines "run \<equiv> calculate_sizes"
  shows "(result_of (run T old_file new_file save_patch_path temp_path w) = Inr r \<longrightarrow>
            files (world_of (run T old_file new_file save_patch_path temp_path w)) temp_path = None
          \<and> files (world_of (run T old_file new_file save_patch_path temp_path w))
               (gzipped_bsdiff_path temp_path) = None
          \<and> files (world_of (run T old_file new_file save_patch_path temp_path w))
               (bzipped_bsdiff_path temp_path) = None
          \<and> files (world_of (run T old_file new_file save_patch_path temp_path w))
               (rebuilt_bsdiff_path save_patch_path temp_path) = None)
       \<and> (result_of (run T old_file new_file save_patch_path temp_path w) = Inl e
            \<and> result_of (create_bsdiff T old_file new_file temp_path w) = Inr ()
            \<and> rebuilt_bsdiff_path save_patch_path temp_path \<noteq> temp_path
            \<and> rebuilt_bsdiff_path save_patch_path temp_path @ ''.gz'' \<noteq> temp_path \<longrightarrow>
            files (world_of (run T old_file new_file save_patch_path temp_path w)) temp_path \<noteq> None)"
proof (intro conjI impI)
  let ?rebuilt = "rebuilt_bsdiff_path save_patch_path temp_path"
  let ?w' = "world_of (run T old_file new_file save_patch_path temp_path w)"
  {
    assume ok: "result_of (run T old_file new_file save_patch_path temp_path w) = Inr r"
    have "files ?w' temp_path = None \<and> files ?w' (gzipped_bsdiff_path temp_path) = None
        \<and> files ?w' (bzipped_bsdiff_path temp_path) = None \<and> files ?w' ?rebuilt = None"
    proof (cases T old_file new_file save_patch_path temp_path w rule: calculate_sizes_cases)
      case (finished w1 w2 w3 w4 n5 w5 n6 w6)
      note d3 = take_remainder_ReturnedD(3) [OF finished(3)]
      note d4 = prepend_header_ReturnedD(2) [OF finished(4)]
      note d5 = gzip_patch_ReturnedD(3) [OF finished(5)]
      note d6 = gzip_new_apk_ReturnedD(3) [OF finished(6)]
      have f: "files ?w' = (files w6)(temp_path := None, gzipped_bsdiff_path temp_path := None)"
        using finished(7) by (simp add: run_def)
      have 1: "files ?w' temp_path = None" unfolding f by simp
      have 2: "files ?w' (gzipped_bsdiff_path temp_path) = None" unfolding f by simp
      have 3: "files ?w' (bzipped_bsdiff_path temp_path) = None"
        unfolding f using gz_not_bz2 [of ?rebuilt temp_path, symmetric]
        by (simp add: d6 d5 d4 d3)
      have 4: "files ?w' ?rebuilt = None" unfolding f by (simp add: d6 d5)
      from 1 2 3 4 show ?thesis by (intro conjI)
    qed (use ok in \<open>simp_all add: run_def\<close>)
  }
  note a = this
  from a show "result_of (run T old_file new_file save_patch_path temp_path w) = Inr r
      \<Longrightarrow> files ?w' temp_path = None" by blast
  from a show "result_of (run T old_file new_file save_patch_path temp_path w) = Inr r
      \<Longrightarrow> files ?w' (gzipped_bsdiff_path temp_path) = None" by blast
  from a show "result_of (run T old_file new_file save_patch_path temp_path w) = Inr r
      \<Longrightarrow> files ?w' (bzipped_bsdiff_path temp_path) = None" by blast
  from a show "result_of (run T old_file new_file save_patch_path temp_path w) = Inr r
      \<Longrightarrow> files ?w' ?rebuilt = None" by blast
  assume h: "result_of (run T old_file new_file save_patch_path temp_path w) = Inl e
            \<and> result_of (create_bsdiff T old_file new_file temp_path w) = Inr ()
            \<and> ?rebuilt \<noteq> temp_path \<and> ?rebuilt @ ''.gz'' \<noteq> temp_path"
  then have bad: "result_of (run T old_file new_file save_patch_path temp_path w) = Inl e"
    and cr: "result_of (create_bsdiff T old_file new_file temp_path w) = Inr ()"
    and n1: "temp_path \<noteq> ?rebuilt" and n2: "temp_path \<noteq> ?rebuilt @ ''.gz''"
    by auto
  note k2 = frame_strip_header [of temp_path temp_path T, OF path_facts(4)]
  note k3 = frame_take_remainder [of temp_path temp_path T, OF path_facts(2) path_facts(1)]
  note k4 = frame_prepend_header [of temp_path save_patch_path temp_path T, OF n1 n2]
  note k5 = frame_gzip_patch [of temp_path save_patch_path temp_path T, OF n1 n2]
  show "files ?w' temp_path \<noteq> None"
  proof (cases T old_file new_file save_patch_path temp_path w rule: calculate_sizes_cases)
    case (create e' w1)
    with cr show ?thesis by simp
  next
    case (strip w1 e' w2)
    from temp_after_create [OF strip(1)] k2 [of w1] strip(2,3) show ?thesis by (simp add: run_def)
  next
    case (remainder w1 w2 e' w3)
    from temp_after_create [OF remainder(1)] k2 [of w1] k3 [of w2] remainder(2-4)
    show ?thesis by (simp add: run_def)
  next
    case (prepend w1 w2 w3 e' w4)
    from temp_after_create [OF prepend(1)] k2 [of w1] k3 [of w2] k4 [of w3] prepend(2-5)
    show ?thesis by (simp add: run_def)
  next
    case (gzip_patch w1 w2 w3 w4 e' w5)
    from temp_after_create [OF gzip_patch(1)] k2 [of w1] k3 [of w2] k4 [of w3] k5 [of w4]
      gzip_patch(2-6)
    show ?thesis by (simp add: run_def)
  next
    case (gzip_new w1 w2 w3 w4 n5 w5 e' w6)
    from gzip_new_apk_writes_temp [of T new_file temp_path w5] gzip_new(6,7)
    show ?thesis by (simp add: run_def)
  next
    case (finished w1 w2 w3 w4 n5 w5 n6 w6)
    with bad show ?thesis by (simp add: run_def)
  qed
qed

theorem cleanup_on_return_only_witness:
  "result_of (calculate_sizes demo_tools ''/sdcard/old.apk'' ''/sdcard/new.apk'' None
      ''/tmp/patch.tmp'' demo_world) = Inr \<lparr>gzipped_new_file_size = 6, bsdiff_patch_size = 9\<rparr>
   \<and> files (world_of (calculate_sizes demo_tools ''/sdcard/old.apk'' ''/sdcard/new.apk'' None
      ''/tmp/patch.tmp'' demo_world)) ''/tmp/patch.tmp'' = None
   \<and> result_of (calculate_sizes demo_tools_tail_fails ''/sdcard/old.apk'' ''/sdcard/new.apk'' None
      ''/tmp/patch.tmp'' demo_world) = Inl (Exception ''Problem at the tail step, returned code: 2'')
   \<and> result_of (create_bsdiff demo_tools_tail_fails ''/sdcard/old.apk'' ''/sdcard/new.apk''
      ''/tmp/patch.tmp'' demo_world) = Inr ()
   \<and> rebuilt_bsdiff_path None ''/tmp/patch.tmp'' \<noteq> ''/tmp/patch.tmp''
   \<and> rebuilt_bsdiff_path None ''/tmp/patch.tmp'' @ ''.gz'' \<noteq> ''/tmp/patch.tmp''
   \<and> files (world_of (calculate_sizes demo_tools_tail_fails ''/sdcard/old.apk'' ''/sdcard/new.apk''
      None ''/tmp/patch.tmp'' demo_world)) ''/tmp/patch.tmp'' \<noteq> None"
proof -
  have h: "result_of (calculate_sizes demo_tools ''/sdcard/old.apk'' ''/sdcard/new.apk'' None
      ''/tmp/patch.tmp'' demo_world) = Inr \<lparr>gzipped_new_file_size = 6, bsdiff_patch_size = 9\<rparr>"
    by code_simp
  have f: "result_of (calculate_sizes demo_tools_tail_fails ''/sdcard/old.apk'' ''/sdcard/new.apk'' None
      ''/tmp/patch.tmp'' demo_world) = Inl (Exception ''Problem at the tail step, returned code: 2'')"
    by code_simp
  have c: "result_of (create_bsdiff demo_tools_tail_fails ''/sdcard/old.apk'' ''/sdcard/new.apk''
      ''/tmp/patch.tmp'' demo_world) = Inr ()"
    by code_simp
  have n1: "rebuilt_bsdiff_path None ''/tmp/patch.tmp'' \<noteq> ''/tmp/patch.tmp''" by code_simp
  have n2: "rebuilt_bsdiff_path None ''/tmp/patch.tmp'' @ ''.gz'' \<noteq> ''/tmp/patch.tmp''" by code_simp
  from cleanup_on_return_only [of demo_tools "''/sdcard/old.apk''" "''/sdcard/new.apk''" None
      "''/tmp/patch.tmp''" demo_world] h
  have 1: "files (world_of (calculate_sizes demo_tools ''/sdcard/old.apk'' ''/sdcard/new.apk'' None
      ''/tmp/patch.tmp'' demo_world)) ''/tmp/patch.tmp'' = None"
    by blast
  from cleanup_on_return_only [of demo_tools_tail_fails "''/sdcard/old.apk''" "''/sdcard/new.apk''" None
      "''/tmp/patch.tmp''" demo_world] f c n1 n2
  have 2: "files (world_of (calculate_sizes demo_tools_tail_fails ''/sdcard/old.apk'' ''/sdcard/new.apk''
      None ''/tmp/patch.tmp'' demo_world)) ''/tmp/patch.tmp'' \<noteq> None"
    by blast
  from h 1 f c n1 n2 2 show ?thesis by (intro conjI)
qed

text \<open>
  Claim C3 as stated fails on every path that raises, since no statement of
  \<^verbatim>\<open>calculate_sizes\<close> runs after a \<^verbatim>\<open>raise\<close>: when \<^verbatim>\<open>tail\<close> exits with status 2,
  the bsdiff output and the header file, absent before the call, are there after it.
\<close>

theorem failed_run_leaves_work_files:
  "result_of (calculate_sizes demo_tools_tail_fails ''/sdcard/old.apk'' ''/sdcard/new.apk'' None
      ''/tmp/patch.tmp'' demo_world) = Inl (Exception ''Problem at the tail step, returned code: 2'')
   \<and> files (world_of (calculate_sizes demo_tools_tail_fails ''/sdcard/old.apk'' ''/sdcard/new.apk''
      None ''/tmp/patch.tmp'' demo_world)) ''/tmp/patch.tmp'' \<noteq> None
   \<and> files (world_of (calculate_sizes demo_tools_tail_fails ''/sdcard/old.apk'' ''/sdcard/new.apk''
      None ''/tmp/patch.tmp'' demo_world)) ''/tmp/patch.tmp.raw_bsdiff_header'' \<noteq> None
   \<and> files demo_world ''/tmp/patch.tmp'' = None
   \<and> files demo_world ''/tmp/patch.tmp.raw_bsdiff_header'' = None"
  by code_simp

section \<open>Determinism\<close>

text \<open>
  Claim C9. With the same tools, a call that returns in one world returns the same
  \<^verbatim>\<open>bsdiff_patch_size\<close> and \<^verbatim>\<open>gzipped_new_file_size\<close> in every world where the two
  input files hold the same bytes, whatever else the worlds differ in (stale work files,
  the trace), the five tool path variables being as they were before the first call or
  as the first call left them. A second call right after the first is the case at hand.
\<close>

theorem same_inputs_same_sizes:
  assumes ok: "result_of (calculate_sizes T old_file new_file save_patch_path temp_path w) = Inr r"
    and o: "files v old_file = files w old_file" and n: "files v new_file = files w new_file"
    and b: "bins v = bins w
            \<or> bins v = bins (world_of (calculate_sizes T old_file new_file save_patch_path temp_path w))"
  shows "result_of (calculate_sizes T old_file new_file save_patch_path temp_path v) = Inr r"
proof (cases T old_file new_file save_patch_path temp_path w rule: calculate_sizes_cases)
  case (finished w1 w2 w3 w4 n5 w5 n6 w6)
  let ?S = "{old_file, new_file, temp_path, bsdiff_header_path temp_path, raw_bsdiff_path temp_path}"
  have "bins (world_of (calculate_sizes T old_file new_file save_patch_path temp_path w)) = bins w1"
    using finished(7) strip_header_ReturnedD(4) [OF finished(2)]
      take_remainder_ReturnedD(5) [OF finished(3)] prepend_header_ReturnedD(4) [OF finished(4)]
      gzip_patch_ReturnedD(5) [OF finished(5)] gzip_new_apk_ReturnedD(5) [OF finished(6)]
    by simp
  with b have b1: "bins v = bins w \<or> bins v = bins w1" by simp
  from sim_create_bsdiff [OF finished(1) o n b1] obtain v1 where
    c1: "create_bsdiff T old_file new_file temp_path v = Returned () v1" and a1: "agree ?S w1 v1"
    by blast
  from sim_strip_header [OF finished(2) a1] obtain v2 where
    c2: "strip_header T temp_path v1 = Returned () v2" and a2: "agree ?S w2 v2" by blast
  from sim_take_remainder [OF finished(3) a2] obtain v3 where
    c3: "take_remainder T temp_path v2 = Returned () v3" and a3: "agree ?S w3 v3" by blast
  from sim_prepend_header [OF finished(4) a3] obtain v4 where
    c4: "prepend_header T save_patch_path temp_path v3 = Returned () v4"
    and a4: "agree (insert (rebuilt_bsdiff_path save_patch_path temp_path) ?S) w4 v4" by blast
  from sim_gzip_patch [OF finished(5) a4] obtain v5 where
    c5: "gzip_patch T save_patch_path temp_path v4 = Returned n5 v5"
    and a5: "agree (insert (rebuilt_bsdiff_path save_patch_path temp_path) ?S) w5 v5" by blast
  from sim_gzip_new_apk [OF finished(6) a5] obtain v6 where
    c6: "gzip_new_apk T new_file temp_path v5 = Returned n6 v6" by blast
  from ok finished(7) have "r = \<lparr>gzipped_new_file_size = n6, bsdiff_patch_size = n5\<rparr>" by simp
  with c1 c2 c3 c4 c5 c6 show ?thesis by (simp add: calculate_sizes_def transcode_def)
qed (use ok in simp_all)

theorem same_inputs_same_sizes_witness:
  "result_of (calculate_sizes demo_tools ''/sdcard/old.apk'' ''/sdcard/new.apk'' None
      ''/tmp/patch.tmp'' demo_world) = Inr \<lparr>gzipped_new_file_size = 6, bsdiff_patch_size = 9\<rparr>
   \<and> files (world_of (calculate_sizes demo_tools ''/sdcard/old.apk'' ''/sdcard/new.apk'' None
      ''/tmp/patch.tmp'' demo_world)) ''/sdcard/old.apk'' = files demo_world ''/sdcard/old.apk''
   \<and> files (world_of (calculate_sizes demo_tools ''/sdcard/old.apk'' ''/sdcard/new.apk'' None
      ''/tmp/patch.tmp'' demo_world)) ''/sdcard/new.apk'' = files demo_world ''/sdcard/new.apk''
   \<and> result_of (calculate_sizes demo_tools ''/sdcard/old.apk'' ''/sdcard/new.apk'' None
      ''/tmp/patch.tmp''
      (world_of (calculate_sizes demo_tools ''/sdcard/old.apk'' ''/sdcard/new.apk'' None
         ''/tmp/patch.tmp'' demo_world)))
     = Inr \<lparr>gzipped_new_file_size = 6, bsdiff_patch_size = 9\<rparr>"
proof -
  let ?v = "world_of (calculate_sizes demo_tools ''/sdcard/old.apk'' ''/sdcard/new.apk'' None
      ''/tmp/patch.tmp'' demo_world)"
  have h: "result_of (calculate_sizes demo_tools ''/sdcard/old.apk'' ''/sdcard/new.apk'' None
      ''/tmp/patch.tmp'' demo_world) = Inr \<lparr>gzipped_new_file_size = 6, bsdiff_patch_size = 9\<rparr>"
    by code_simp
  have o: "files ?v ''/sdcard/old.apk'' = files demo_world ''/sdcard/old.apk''" by code_simp
  have n: "files ?v ''/sdcard/new.apk'' = files demo_world ''/sdcard/new.apk''" by code_simp
  have b: "bins ?v = bins demo_world \<or> bins ?v = bins ?v" by (rule disjI2) (rule refl)
  from h o n same_inputs_same_sizes [OF h o n b] show ?thesis by (intro conjI)
qed

section \<open>The header of the bsdiff output\<close>

text \<open>
  Whatever the tools and the bsdiff output, the header file is what \<^verbatim>\<open>head\<close> makes
  of an empty file.
\<close>

lemma header_file_from_empty_input:
  "files (world_of (strip_header T temp_path w)) (bsdiff_header_path temp_path)
     = Some (snd (head_run T 32 (Some [])))"
  by (simp add: strip_header_def Let_def prim_simps)

text \<open>
  Claim C2, on the code. The claim wants the prefix file to hold the first 32 bytes of
  the bsdiff output. Line 138 gives \<^verbatim>\<open>head\<close> the header file itself to read, which
  line 136 has just truncated, instead of \<^verbatim>\<open>temp_path\<close>: after the split the header
  file is empty while the first 32 bytes of the bsdiff output at \<^verbatim>\<open>temp_path\<close> are
  the header.
\<close>

theorem header_file_is_empty:
  "files (world_of (strip_header demo_tools ''/tmp/patch.tmp''
       (world_of (create_bsdiff demo_tools ''/sdcard/old.apk'' ''/sdcard/new.apk''
          ''/tmp/patch.tmp'' demo_world)))) ''/tmp/patch.tmp.raw_bsdiff_header'' = Some []
   \<and> map_option (take 32) (files (world_of (strip_header demo_tools ''/tmp/patch.tmp''
       (world_of (create_bsdiff demo_tools ''/sdcard/old.apk'' ''/sdcard/new.apk''
          ''/tmp/patch.tmp'' demo_world)))) ''/tmp/patch.tmp'')
       = Some [0x42, 0x42, 0x42, 0x42, 0x42, 0x42, 0x42, 0x42, 0x42, 0x42, 0x42, 0x42, 0x42, 0x42,
               0x42, 0x42, 0x42, 0x42, 0x42, 0x42, 0x42, 0x42, 0x42, 0x42, 0x42, 0x42, 0x42, 0x42,
               0x42, 0x42, 0x42, 0x42]
   \<and> last (calls (world_of (strip_header demo_tools ''/tmp/patch.tmp''
       (world_of (create_bsdiff demo_tools ''/sdcard/old.apk'' ''/sdcard/new.apk''
          ''/tmp/patch.tmp'' demo_world)))))
       = (Head, [''/usr/bin/head'', ''-c'', ''32'', ''/tmp/patch.tmp.raw_bsdiff_header''], 0)"
  by code_simp

text \<open>
  Claim C1, on the code. The claim wants the rebuilt patch to be the first 32 bytes of
  the bsdiff output followed by the decompression of the rest. With the header file
  empty, \<^verbatim>\<open>cat\<close> writes the decompressed payload alone: the rebuilt patch is 8 bytes
  where the independent computation gives 40.
\<close>

theorem rebuilt_patch_lacks_header:
  "files (world_of (transcode demo_tools ''/sdcard/old.apk'' ''/sdcard/new.apk'' None
       ''/tmp/patch.tmp'' demo_world)) ''/tmp/patch.tmp.raw_bsdiff.rebuilt''
     = Some [1, 2, 3, 1, 2, 3, 4, 5]
   \<and> take 32 (snd (bsdiff_run demo_tools (Some [1, 2, 3]) (Some [1, 2, 3, 4, 5])))
       @ snd (bunzip2_run demo_tools
           (Some (drop 32 (snd (bsdiff_run demo_tools (Some [1, 2, 3]) (Some [1, 2, 3, 4, 5]))))))
     = [0x42, 0x42, 0x42, 0x42, 0x42, 0x42, 0x42, 0x42, 0x42, 0x42, 0x42, 0x42, 0x42, 0x42,
        0x42, 0x42, 0x42, 0x42, 0x42, 0x42, 0x42, 0x42, 0x42, 0x42, 0x42, 0x42, 0x42, 0x42,
        0x42, 0x42, 0x42, 0x42, 1, 2, 3, 1, 2, 3, 4, 5]
   \<and> result_of (transcode demo_tools ''/sdcard/old.apk'' ''/sdcard/new.apk'' None
       ''/tmp/patch.tmp'' demo_world) = Inr ()"
  by code_simp

end
